theory Spec2Isabelle
  imports Main "HOL-Library.Sublist"
begin

section \<open>JavaScript strings\<close>

text \<open>
  A JavaScript string is a sequence of UTF-16 code units; the regular expressions of
  \<^verbatim>\<open>Terminal.jsx\<close> carry no \<^verbatim>\<open>u\<close> flag, so they work on code units too.
  A code unit is modelled as a natural number, and \<open>str\<close> turns an ASCII literal into
  its code units.
\<close>

type_synonym jsstring = "nat list"

definition str :: "string \<Rightarrow> jsstring" where
  "str s = map of_char s"

text \<open>
  \<^verbatim>\<open>\s\<close> in a regular expression and \<^verbatim>\<open>String.prototype.trim\<close> use the same set:
  ECMAScript's WhiteSpace and LineTerminator code points.
\<close>

definition isWhiteSpace :: "nat \<Rightarrow> bool" where
  "isWhiteSpace c \<longleftrightarrow>
     c = 9 \<or> c = 10 \<or> c = 11 \<or> c = 12 \<or> c = 13 \<or> c = 32 \<or> c = 160 \<or> c = 5760 \<or>
     (8192 \<le> c \<and> c \<le> 8202) \<or> c = 8232 \<or> c = 8233 \<or> c = 8239 \<or> c = 8287 \<or>
     c = 12288 \<or> c = 65279"

definition trim :: "jsstring \<Rightarrow> jsstring" where
  "trim s = rev (dropWhile isWhiteSpace (rev (dropWhile isWhiteSpace s)))"

text \<open>\<^verbatim>\<open>a || b\<close> on strings: the empty string is the only falsy string.\<close>

definition orElse :: "jsstring \<Rightarrow> jsstring \<Rightarrow> jsstring" where
  "orElse a b = (if a = [] then b else a)"

text \<open>\<^verbatim>\<open>s.indexOf(c)\<close> for a single code unit; \<open>None\<close> stands for \<^verbatim>\<open>-1\<close>.\<close>

fun indexOf :: "jsstring \<Rightarrow> nat \<Rightarrow> nat option" where
  "indexOf [] c = None"
| "indexOf (x # xs) c = (if x = c then Some 0 else map_option Suc (indexOf xs c))"

text \<open>\<^verbatim>\<open>s.includes(t)\<close>.\<close>

fun includes_str :: "jsstring \<Rightarrow> jsstring \<Rightarrow> bool" where
  "includes_str [] t = (t = [])"
| "includes_str (x # xs) t = (prefix t (x # xs) \<or> includes_str xs t)"

text \<open>
  \<^verbatim>\<open>s.replace(/re/g, '')\<close>. The matcher \<open>m\<close> tells, for the text at the current
  position, what is left after a match starting there. A match is removed and the scan
  goes on behind it; otherwise the code unit is kept. Every pattern of \<open>stripAnsi\<close>
  consumes at least one code unit; the length test keeps the function total for any
  matcher.
\<close>

function replaceAll :: "(jsstring \<Rightarrow> jsstring option) \<Rightarrow> jsstring \<Rightarrow> jsstring" where
  "replaceAll m [] = []"
| "replaceAll m (c # cs) =
     (case m (c # cs) of
        Some rest \<Rightarrow>
          if length rest < Suc (length cs) then replaceAll m rest else c # replaceAll m cs
      | None \<Rightarrow> c # replaceAll m cs)"
  by pat_completeness auto
termination
  by (relation "measure (\<lambda>(m, s). length s)") auto

text \<open>
  \<^verbatim>\<open>s.split(/\s+/)\<close>: the pieces between maximal runs of white space. A leading or a
  trailing run gives an empty first or last piece, and the empty string gives one
  empty piece. \<open>splitFrom tok s\<close> scans \<open>s\<close> with the piece \<open>tok\<close> begun.
\<close>

function splitFrom :: "jsstring \<Rightarrow> jsstring \<Rightarrow> jsstring list" where
  "splitFrom tok [] = [tok]"
| "splitFrom tok (c # cs) =
     (if isWhiteSpace c then tok # splitFrom [] (dropWhile isWhiteSpace cs)
      else splitFrom (tok @ [c]) cs)"
  by pat_completeness auto
termination
proof (relation "measure (\<lambda>(tok, s). length s)")
  show "wf (measure (\<lambda>(tok, s). length s))" by simp
next
  fix tok :: jsstring and c :: nat and cs :: jsstring
  have "length (dropWhile isWhiteSpace cs) \<le> length cs"
    by (rule length_dropWhile_le)
  then show "(([], dropWhile isWhiteSpace cs), (tok, c # cs)) \<in> measure (\<lambda>(tok, s). length s)"
    by simp
next
  fix tok :: jsstring and c :: nat and cs :: jsstring
  show "((tok @ [c], cs), (tok, c # cs)) \<in> measure (\<lambda>(tok, s). length s)"
    by simp
qed

definition splitWs :: "jsstring \<Rightarrow> jsstring list" where
  "splitWs s = splitFrom [] s"

section \<open>stripAnsi\<close>

text \<open>
  \<^verbatim>\<open>Terminal.jsx\<close>, lines 10 to 18: eight global replacements by the empty string, one
  after the other. Each pattern is given as a matcher in the sense of \<open>replaceAll\<close>.
\<close>

definition isDigitSemi :: "nat \<Rightarrow> bool" where
  \<comment> \<open>\<^verbatim>\<open>[0-9;]\<close>\<close>
  "isDigitSemi c \<longleftrightarrow> (48 \<le> c \<and> c \<le> 57) \<or> c = 59"

definition isLetter :: "nat \<Rightarrow> bool" where
  \<comment> \<open>\<^verbatim>\<open>[a-zA-Z]\<close>\<close>
  "isLetter c \<longleftrightarrow> (97 \<le> c \<and> c \<le> 122) \<or> (65 \<le> c \<and> c \<le> 90)"

definition letterThen :: "jsstring \<Rightarrow> jsstring option" where
  \<comment> \<open>a final \<^verbatim>\<open>[a-zA-Z]\<close>\<close>
  "letterThen s = (case s of c # r \<Rightarrow> if isLetter c then Some r else None | [] \<Rightarrow> None)"

definition csiPrivate :: "jsstring \<Rightarrow> jsstring option" where
  \<comment> \<open>\<^verbatim>\<open>/\x1b\[[\?=>!]?[0-9;]*[a-zA-Z]/\<close>\<close>
  "csiPrivate s =
     (case s of
        a # b # r \<Rightarrow>
          if a = 27 \<and> b = 91 then
            (let r1 = (case r of
                         c # r' \<Rightarrow> if c = 63 \<or> c = 61 \<or> c = 62 \<or> c = 33 then r' else r
                       | [] \<Rightarrow> r)
             in letterThen (dropWhile isDigitSemi r1))
          else None
      | _ \<Rightarrow> None)"

definition csi8bit :: "jsstring \<Rightarrow> jsstring option" where
  \<comment> \<open>\<^verbatim>\<open>/\x9b[0-9;]*[a-zA-Z]/\<close>\<close>
  "csi8bit s =
     (case s of
        a # r \<Rightarrow> if a = 155 then letterThen (dropWhile isDigitSemi r) else None
      | [] \<Rightarrow> None)"

text \<open>
  What is left after the last \<^verbatim>\<open>ESC \\<close> of a string: where the greedy
  \<^verbatim>\<open>[^\x07]*\<close> ends after backtracking when no BEL follows.
\<close>

fun afterLastST :: "jsstring \<Rightarrow> jsstring option" where
  "afterLastST [] = None"
| "afterLastST (c # cs) =
     (case afterLastST cs of
        Some r \<Rightarrow> Some r
      | None \<Rightarrow> (case cs of d # r \<Rightarrow> if c = 27 \<and> d = 92 then Some r else None | [] \<Rightarrow> None))"

definition osc :: "jsstring \<Rightarrow> jsstring option" where
  \<comment> \<open>\<^verbatim>\<open>/\x1b\][^\x07]*(?:\x07|\x1b\\)/\<close>: up to the first BEL when there is one
      (the greedy star stops in front of it), else up to the last \<^verbatim>\<open>ESC \\<close>\<close>
  "osc s =
     (case s of
        a # b # r \<Rightarrow>
          if a = 27 \<and> b = 93 then
            (case dropWhile (\<lambda>c. c \<noteq> 7) r of
               _ # r' \<Rightarrow> Some r'
             | [] \<Rightarrow> afterLastST r)
          else None
      | _ \<Rightarrow> None)"

definition charsetSelect :: "jsstring \<Rightarrow> jsstring option" where
  \<comment> \<open>\<^verbatim>\<open>/\x1b[()][A-Z0-9]/\<close>\<close>
  "charsetSelect s =
     (case s of
        a # b # c # r \<Rightarrow>
          if a = 27 \<and> (b = 40 \<or> b = 41) \<and> ((65 \<le> c \<and> c \<le> 90) \<or> (48 \<le> c \<and> c \<le> 57))
          then Some r else None
      | _ \<Rightarrow> None)"

definition escSingle :: "jsstring \<Rightarrow> jsstring option" where
  \<comment> \<open>\<^verbatim>\<open>/\x1b[>=<~}|]/\<close>\<close>
  "escSingle s =
     (case s of
        a # b # r \<Rightarrow>
          if a = 27 \<and> (b = 62 \<or> b = 61 \<or> b = 60 \<or> b = 126 \<or> b = 125 \<or> b = 124)
          then Some r else None
      | _ \<Rightarrow> None)"

definition csiGeneral :: "jsstring \<Rightarrow> jsstring option" where
  \<comment> \<open>\<^verbatim>\<open>/\x1b\[[0-9;]*[ -/]*[@-~]/\<close>\<close>
  "csiGeneral s =
     (case s of
        a # b # r \<Rightarrow>
          if a = 27 \<and> b = 91 then
            (case dropWhile (\<lambda>c. 32 \<le> c \<and> c \<le> 47) (dropWhile isDigitSemi r) of
               f # r' \<Rightarrow> if 64 \<le> f \<and> f \<le> 126 then Some r' else None
             | [] \<Rightarrow> None)
          else None
      | _ \<Rightarrow> None)"

definition bareBracket :: "jsstring \<Rightarrow> jsstring option" where
  \<comment> \<open>\<^verbatim>\<open>/\[[\?]?[0-9;]*[a-zA-Z]/\<close>: a CSI sequence whose ESC is already gone\<close>
  "bareBracket s =
     (case s of
        a # r \<Rightarrow>
          if a = 91 then
            (let r1 = (case r of c # r' \<Rightarrow> if c = 63 then r' else r | [] \<Rightarrow> r)
             in letterThen (dropWhile isDigitSemi r1))
          else None
      | [] \<Rightarrow> None)"

definition carriageReturn :: "jsstring \<Rightarrow> jsstring option" where
  \<comment> \<open>\<^verbatim>\<open>/\r/\<close>\<close>
  "carriageReturn s = (case s of a # r \<Rightarrow> if a = 13 then Some r else None | [] \<Rightarrow> None)"

definition stripAnsi :: "jsstring \<Rightarrow> jsstring" where
  "stripAnsi s =
     replaceAll carriageReturn
      (replaceAll bareBracket
        (replaceAll csiGeneral
          (replaceAll escSingle
            (replaceAll charsetSelect
              (replaceAll osc
                (replaceAll csi8bit
                  (replaceAll csiPrivate s)))))))"

section \<open>The capture engine of \<^verbatim>\<open>Terminal.jsx\<close>\<close>

subsection \<open>Sentinel extraction\<close>

text \<open>The \<^verbatim>\<open>ssh:output\<close> handler, lines 254 to 273, from the match on.\<close>

definition AGENT_SENTINEL :: jsstring where
  "AGENT_SENTINEL = str ''__JUNI_AGENT_DONE__''"

text \<open>
  \<^verbatim>\<open>/[\r\n]__JUNI_AGENT_DONE__/.exec(stripped)\<close>: the index of the first line break that
  the marker follows. The marker is a parameter here; the code's pattern is the
  instance at \<open>AGENT_SENTINEL\<close>.
\<close>

fun sentinelExec :: "jsstring \<Rightarrow> jsstring \<Rightarrow> nat option" where
  "sentinelExec marker [] = None"
| "sentinelExec marker (c # cs) =
     (if (c = 13 \<or> c = 10) \<and> prefix marker cs then Some 0
      else map_option Suc (sentinelExec marker cs))"

definition extractOutput :: "jsstring \<Rightarrow> nat \<Rightarrow> jsstring" where
  "extractOutput stripped index =
     (let beforeSentinel = take index stripped
      in case indexOf beforeSentinel 10 of
           Some firstNewline \<Rightarrow> trim (drop (firstNewline + 1) beforeSentinel)
         | None \<Rightarrow> trim beforeSentinel)"

definition sentinelCapture :: "jsstring \<Rightarrow> jsstring \<Rightarrow> jsstring option" where
  \<comment> \<open>what the output handler resolves with for the accumulated buffer, if anything\<close>
  "sentinelCapture marker buf =
     (let stripped = stripAnsi buf
      in map_option (extractOutput stripped) (sentinelExec marker stripped))"

subsection \<open>Key translation\<close>

text \<open>
  \<open>sendAgentKeys\<close>, lines 72 to 109.
  \<open>KEY_MAP\<close> is an object literal, so \<^verbatim>\<open>KEY_MAP[token]\<close> finds the literal's own
  properties first and then those its prototype \<^verbatim>\<open>Object.prototype\<close> provides.
\<close>

datatype jsvalue = JString jsstring | JFunction jsstring | JObject | JUndefined

definition KEY_MAP :: "(jsstring \<times> jsstring) list" where
  "KEY_MAP =
    [(str ''Enter'', [13]),
     (str ''Return'', [13]),
     (str ''Tab'', [9]),
     (str ''Escape'', [27]),
     (str ''Esc'', [27]),
     (str ''Backspace'', [127]),
     (str ''Delete'', [27] @ str ''[3~''),
     (str ''Up'', [27] @ str ''[A''),
     (str ''Down'', [27] @ str ''[B''),
     (str ''Right'', [27] @ str ''[C''),
     (str ''Left'', [27] @ str ''[D''),
     (str ''Home'', [27] @ str ''[H''),
     (str ''End'', [27] @ str ''[F''),
     (str ''PageUp'', [27] @ str ''[5~''),
     (str ''PageDown'', [27] @ str ''[6~''),
     (str ''Ctrl+C'', [3]),
     (str ''Ctrl+D'', [4]),
     (str ''Ctrl+Z'', [26]),
     (str ''Ctrl+L'', [12]),
     (str ''Ctrl+A'', [1]),
     (str ''Ctrl+E'', [5]),
     (str ''Ctrl+K'', [11]),
     (str ''Ctrl+U'', [21]),
     (str ''Ctrl+W'', [23]),
     (str ''Ctrl+R'', [18]),
     (str ''Space'', [32])]"

definition objectPrototype :: "(jsstring \<times> jsvalue) list" where
  \<comment> \<open>the properties of \<^verbatim>\<open>Object.prototype\<close>; \<^verbatim>\<open>__proto__\<close> reads as the prototype itself\<close>
  "objectPrototype =
    [(str ''constructor'', JFunction (str ''Object'')),
     (str ''__defineGetter__'', JFunction (str ''__defineGetter__'')),
     (str ''__defineSetter__'', JFunction (str ''__defineSetter__'')),
     (str ''hasOwnProperty'', JFunction (str ''hasOwnProperty'')),
     (str ''__lookupGetter__'', JFunction (str ''__lookupGetter__'')),
     (str ''__lookupSetter__'', JFunction (str ''__lookupSetter__'')),
     (str ''isPrototypeOf'', JFunction (str ''isPrototypeOf'')),
     (str ''propertyIsEnumerable'', JFunction (str ''propertyIsEnumerable'')),
     (str ''toString'', JFunction (str ''toString'')),
     (str ''valueOf'', JFunction (str ''valueOf'')),
     (str ''__proto__'', JObject),
     (str ''toLocaleString'', JFunction (str ''toLocaleString''))]"

definition keyMapGet :: "jsstring \<Rightarrow> jsvalue" where
  \<comment> \<open>\<^verbatim>\<open>KEY_MAP[token]\<close>\<close>
  "keyMapGet token =
     (case map_of KEY_MAP token of
        Some v \<Rightarrow> JString v
      | None \<Rightarrow> (case map_of objectPrototype token of Some v \<Rightarrow> v | None \<Rightarrow> JUndefined))"

fun toString :: "jsvalue \<Rightarrow> jsstring" where
  \<comment> \<open>the string that \<^verbatim>\<open>payload += v\<close> appends (a built-in function prints as V8 prints it)\<close>
  "toString (JString v) = v"
| "toString (JFunction name) = str ''function '' @ name @ str ''() { [native code] }''"
| "toString JObject = str ''[object Object]''"
| "toString JUndefined = str ''undefined''"

definition translateToken :: "jsstring \<Rightarrow> jsstring" where
  "translateToken token =
     (if keyMapGet token \<noteq> JUndefined then toString (keyMapGet token) else token)"

definition translateKeys :: "jsstring \<Rightarrow> jsstring" where
  \<comment> \<open>the loop over \<^verbatim>\<open>keys.split(/\s+/)\<close> that builds \<open>payload\<close>\<close>
  "translateKeys keys = foldl (\<lambda>payload token. payload @ translateToken token) [] (splitWs keys)"

subsection \<open>State and operations\<close>

text \<open>
  The refs of the component and the handle its parent calls (lines 49 to 149). A promise
  is known by a number, and calling its resolver is logged; so are the timeouts that
  are armed and the listeners that are registered.
\<close>

record capture =
  buffer :: jsstring
  resolve :: nat
  timer :: nat

record keysCapture =
  kresolve :: nat
  ktimer :: nat
  kcleanup :: nat

text \<open>
  A pending \<^verbatim>\<open>setTimeout\<close> callback: the one of \<open>runAgentCommand\<close> closes over its
  promise's resolver, the one of \<open>sendAgentKeys\<close> over its resolver and its listener
  (whose \<open>outputBuffer\<close> it reads).
\<close>

datatype timerCallback = CommandTimeout nat | KeysTimeout nat nat

record terminal =
  socketRef :: bool
  agentCaptureRef :: "capture option"
  agentKeysRef :: "keysCapture option"
  timers :: "(nat \<times> nat \<times> timerCallback) list"
  listeners :: "nat list"
  outputBuffer :: "nat \<Rightarrow> jsstring"
  fresh :: nat
  resolved :: "(nat \<times> jsstring) list"
  emitted :: "jsstring list"
  written :: "jsstring list"

text \<open>
  \<open>socketRef\<close> tells whether \<^verbatim>\<open>socketRef.current\<close> is set. \<open>timers\<close> holds the armed
  timeouts as (handle, delay in ms, callback). \<open>listeners\<close> are the extra
  \<^verbatim>\<open>ssh:output\<close> listeners that \<open>sendAgentKeys\<close> registers, \<open>outputBuffer\<close> the
  variable each of them appends to. \<open>fresh\<close> numbers promises, timeouts and listeners.
  \<open>resolved\<close> logs every call of a promise's resolver with its argument,
  \<open>emitted\<close> every \<^verbatim>\<open>socket.emit('ssh:data', _)\<close>, \<open>written\<close> every \<^verbatim>\<open>term.write\<close>.
\<close>

definition callResolve :: "nat \<Rightarrow> jsstring \<Rightarrow> terminal \<Rightarrow> terminal" where
  "callResolve p v s = s\<lparr>resolved := resolved s @ [(p, v)]\<rparr>"

definition clearTimeout :: "nat \<Rightarrow> terminal \<Rightarrow> terminal" where
  "clearTimeout t s = s\<lparr>timers := filter (\<lambda>e. fst e \<noteq> t) (timers s)\<rparr>"

definition cleanup :: "nat \<Rightarrow> terminal \<Rightarrow> terminal" where
  \<comment> \<open>\<^verbatim>\<open>socketRef.current?.off('ssh:output', onOutput)\<close>\<close>
  "cleanup l s = (if socketRef s then s\<lparr>listeners := filter (\<lambda>x. x \<noteq> l) (listeners s)\<rparr> else s)"

definition abortedMessage :: jsstring where
  "abortedMessage = str ''(aborted by user)''"

definition timeoutMessage :: jsstring where
  \<comment> \<open>8212 is the em dash\<close>
  "timeoutMessage =
     str ''(command timed out after 60s '' @ [8212] @ str '' it may be waiting for input)''"

definition noOutputMessage :: jsstring where
  "noOutputMessage = str ''(no visible output after sending keys)''"

definition notConnectedMessage :: jsstring where
  "notConnectedMessage = str ''Error: terminal not connected''"

definition abortAgentCapture :: "terminal \<Rightarrow> terminal" where
  "abortAgentCapture s =
     (let s1 = (case agentCaptureRef s of
                  None \<Rightarrow> s
                | Some c \<Rightarrow>
                    callResolve (resolve c) (orElse (trim (stripAnsi (buffer c))) abortedMessage)
                      ((clearTimeout (timer c) s)\<lparr>agentCaptureRef := None\<rparr>))
      in case agentKeysRef s1 of
           None \<Rightarrow> s1
         | Some k \<Rightarrow>
             callResolve (kresolve k) abortedMessage
               ((cleanup (kcleanup k) (clearTimeout (ktimer k) s1))\<lparr>agentKeysRef := None\<rparr>))"

definition sendAgentKeys :: "jsstring \<Rightarrow> terminal \<Rightarrow> terminal" where
  "sendAgentKeys keys s =
     (let p = fresh s; l = fresh s + 1; t = fresh s + 2; s0 = s\<lparr>fresh := fresh s + 3\<rparr>
      in if \<not> socketRef s then callResolve p notConnectedMessage s0
         else s0\<lparr>outputBuffer := (outputBuffer s)(l := []),
                 listeners := listeners s @ [l],
                 emitted := emitted s @ [translateKeys keys],
                 timers := timers s @ [(t, 3000, KeysTimeout p l)],
                 agentKeysRef := Some \<lparr>kresolve = p, ktimer = t, kcleanup = l\<rparr>\<rparr>)"

definition runAgentCommand :: "jsstring \<Rightarrow> terminal \<Rightarrow> terminal" where
  "runAgentCommand command s =
     (let p = fresh s; t = fresh s + 1; s0 = s\<lparr>fresh := fresh s + 2\<rparr>
      in if \<not> socketRef s then callResolve p notConnectedMessage s0
         else s0\<lparr>timers := timers s @ [(t, 60000, CommandTimeout p)],
                 agentCaptureRef := Some \<lparr>buffer = [], resolve = p, timer = t\<rparr>,
                 emitted := emitted s @ [command @ str ''; echo '' @ AGENT_SENTINEL @ [10]]\<rparr>)"

fun runCallback :: "timerCallback \<Rightarrow> terminal \<Rightarrow> terminal" where
  "runCallback (CommandTimeout p) s =
     (case agentCaptureRef s of
        Some c \<Rightarrow>
          callResolve p (orElse (trim (stripAnsi (buffer c))) timeoutMessage)
            (s\<lparr>agentCaptureRef := None\<rparr>)
      | None \<Rightarrow> s)"
| "runCallback (KeysTimeout p l) s =
     callResolve p (orElse (trim (stripAnsi (outputBuffer s l))) noOutputMessage)
       ((cleanup l s)\<lparr>agentKeysRef := None\<rparr>)"

definition timerFire :: "nat \<Rightarrow> terminal \<Rightarrow> terminal" where
  \<comment> \<open>the runtime runs the callback of an armed timeout, which is then spent\<close>
  "timerFire t s =
     (case map_of (timers s) t of
        Some (delay, cb) \<Rightarrow> runCallback cb (clearTimeout t s)
      | None \<Rightarrow> s)"

definition onSshOutput :: "jsstring \<Rightarrow> terminal \<Rightarrow> terminal" where
  \<comment> \<open>the component's \<^verbatim>\<open>ssh:output\<close> handler, then the listeners of \<open>sendAgentKeys\<close>\<close>
  "onSshOutput data s =
     (let s0 = s\<lparr>written := written s @ [data]\<rparr>;
          s1 = (case agentCaptureRef s0 of
                  None \<Rightarrow> s0
                | Some c \<Rightarrow>
                    (case sentinelCapture AGENT_SENTINEL (buffer c @ data) of
                       Some output \<Rightarrow>
                         callResolve (resolve c) output
                           ((clearTimeout (timer c) s0)\<lparr>agentCaptureRef := None\<rparr>)
                     | None \<Rightarrow> s0\<lparr>agentCaptureRef := Some (c\<lparr>buffer := buffer c @ data\<rparr>)\<rparr>))
      in s1\<lparr>outputBuffer :=
              (\<lambda>l. if l \<in> set (listeners s1) then outputBuffer s1 l @ data else outputBuffer s1 l)\<rparr>)"

datatype event =
    RunAgentCommand jsstring
  | SendAgentKeys jsstring
  | AbortAgentCapture
  | SshOutput jsstring
  | TimerFire nat

fun step :: "event \<Rightarrow> terminal \<Rightarrow> terminal" where
  "step (RunAgentCommand command) s = runAgentCommand command s"
| "step (SendAgentKeys keys) s = sendAgentKeys keys s"
| "step AbortAgentCapture s = abortAgentCapture s"
| "step (SshOutput data) s = onSshOutput data s"
| "step (TimerFire t) s = timerFire t s"

definition run :: "event list \<Rightarrow> terminal \<Rightarrow> terminal" where
  "run evs s = foldl (\<lambda>s e. step e s) s evs"

definition mounted :: terminal where
  \<comment> \<open>the component once its socket is created\<close>
  "mounted =
     \<lparr>socketRef = True, agentCaptureRef = None, agentKeysRef = None, timers = [],
      listeners = [], outputBuffer = (\<lambda>_. []), fresh = 0, resolved = [], emitted = [],
      written = []\<rparr>"

section \<open>The agent loop of \<^verbatim>\<open>GeminiChat.jsx\<close>\<close>

text \<open>
  Lines 142 to 369. \<open>startAgentLoop\<close> is an asynchronous function: from one
  \<^verbatim>\<open>await\<close> to the next it runs without interruption, and at an \<^verbatim>\<open>await\<close> it waits
  for the model, for a capture of the terminal, or for the end of a pause. The model
  has one function for each such stretch of the loop, a state that records at which
  \<^verbatim>\<open>await\<close> the loop stands, and an event for everything that lets it go on or that the
  user does meanwhile.
\<close>

subsection \<open>Model replies\<close>

type_synonym args = "(jsstring \<times> jsstring) list"

record part =
  functionCallOf :: "(jsstring \<times> args) option"
  textOf :: "jsstring option"

datatype agentResult =
    ResultText jsstring "part list"
  | ResultComplete "jsstring option" "part list"
  | ResultCommand "jsstring option" "jsstring option" "part list"
  | ResultSendKeys "jsstring option" "jsstring option" "part list"

definition noResponse :: jsstring where
  "noResponse = str ''No response generated.''"

definition textResult :: "part list \<Rightarrow> agentResult" where
  \<comment> \<open>the tail of \<open>runAgentStep\<close>: \<^verbatim>\<open>parts.find((p) => p.text)\<close> wants a non-empty text\<close>
  "textResult parts =
     (case List.find (\<lambda>p. textOf p \<noteq> None \<and> textOf p \<noteq> Some []) parts of
        Some textPart \<Rightarrow>
          (case textOf textPart of
             Some t \<Rightarrow> ResultText t parts
           | None \<Rightarrow> ResultText noResponse [\<lparr>functionCallOf = None, textOf = Some noResponse\<rparr>])
      | None \<Rightarrow> ResultText noResponse [\<lparr>functionCallOf = None, textOf = Some noResponse\<rparr>])"

definition runAgentStep :: "part list \<Rightarrow> agentResult" where
  \<comment> \<open>what \<open>runAgentStep\<close> makes of the parts that \<open>callGeminiAgent\<close> returned\<close>
  "runAgentStep parts =
     (case find (\<lambda>p. functionCallOf p \<noteq> None) parts of
        Some fc \<Rightarrow>
          (case functionCallOf fc of
             Some (name, args) \<Rightarrow>
               if name = str ''task_complete'' then
                 ResultComplete (map_of args (str ''summary'')) parts
               else if name = str ''run_command'' then
                 ResultCommand (map_of args (str ''command'')) (map_of args (str ''reasoning'')) parts
               else if name = str ''send_keys'' then
                 ResultSendKeys (map_of args (str ''keys'')) (map_of args (str ''reasoning'')) parts
               else textResult parts
           | None \<Rightarrow> textResult parts)
      | None \<Rightarrow> textResult parts)"

subsection \<open>State\<close>

datatype stepType = StepCommand | StepSendKeys | StepComplete | StepAborted | StepError

datatype stepStatus = StatusRunning | StatusDone | StatusTimeout

record agentStep =
  stepType :: stepType
  status :: stepStatus
  subject :: "jsstring option"
  reasoning :: "jsstring option"
  stepOutput :: "jsstring option"

text \<open>
  \<open>subject\<close> is the step's \<^verbatim>\<open>command\<close>, \<^verbatim>\<open>keys\<close>, \<^verbatim>\<open>summary\<close> or \<^verbatim>\<open>text\<close>, whichever
  its type carries; an argument the model left out is \<open>None\<close>.
\<close>

datatype response = Output jsstring | Acknowledged

datatype entry =
    UserEntry jsstring
  | ModelEntry "part list"
  | FunctionCallEntry jsstring "(jsstring \<times> jsstring option) list"
  | FunctionResponseEntry jsstring response

datatype message = SystemMessage jsstring | ModelMessage jsstring

text \<open>
  \<open>ModelMessage t\<close> is the message whose text is \<^verbatim>\<open>renderForTerminal(t)\<close>.
\<close>

datatype pausedResolver = IsNull | IsPending | IsResolver

datatype terminalCall = CallRunAgentCommand "jsstring option" | CallSendAgentKeys "jsstring option"
  | CallAbortAgentCapture

text \<open>
  Where the loop of \<open>startAgentLoop\<close> stands: at one of its \<^verbatim>\<open>await\<close>s in iteration
  \<open>i\<close>, or not running.
\<close>

datatype control =
    NotStarted
  | AwaitPause nat
  | AwaitModel nat
  | AwaitCommand nat "jsstring option" "jsstring option"
  | AwaitKeys nat "jsstring option" "jsstring option"
  | Finished

record agent =
  abortAgentRef :: bool
  pausedResolverRef :: pausedResolver
  abortControllerRef :: bool
  signalAborted :: bool
  lastAgentPromptRef :: "jsstring option"
  agentRunning :: bool
  agentPaused :: bool
  agentStopping :: bool
  isLoading :: bool
  agentSteps :: "agentStep list"
  agentHistory :: "entry list"
  history :: "entry list"
  messages :: "message list"
  onRunAgentCommand :: bool
  onSendAgentKeys :: bool
  onAbortAgentCapture :: bool
  control :: control
  pauseResolved :: bool
  modelCalls :: "entry list list"
  terminalCalls :: "terminalCall list"

text \<open>
  \<open>abortControllerRef\<close> tells whether the ref holds the run's controller and
  \<open>signalAborted\<close> whether that controller's signal is aborted. The three
  \<open>on...\<close> fields tell whether the component was given that prop. \<open>history\<close> is the
  loop's local variable. \<open>pauseResolved\<close> holds once the promise of the pause-wait is
  resolved and until the loop goes on behind its \<^verbatim>\<open>await\<close>. \<open>modelCalls\<close> logs the
  history of every \<open>callGeminiAgent\<close>, \<open>terminalCalls\<close> every call of a terminal prop.
\<close>

definition maxIterations :: nat where
  "maxIterations = 20"

definition addStep :: "agentStep \<Rightarrow> agent \<Rightarrow> agent" where
  "addStep st s = s\<lparr>agentSteps := agentSteps s @ [st]\<rparr>"

definition abortedStep :: agentStep where
  "abortedStep =
     \<lparr>stepType = StepAborted, status = StatusDone, subject = None, reasoning = None,
      stepOutput = None\<rparr>"

definition updateLast :: "('a \<Rightarrow> 'a) \<Rightarrow> 'a list \<Rightarrow> 'a list" where
  \<comment> \<open>\<^verbatim>\<open>prev.map((s, i) => i === prev.length - 1 ? f(s) : s)\<close>\<close>
  "updateLast f xs = (if xs = [] then [] else butlast xs @ [f (last xs)])"

definition finallyBlock :: "agent \<Rightarrow> agent" where
  "finallyBlock s =
     s\<lparr>agentRunning := False, agentPaused := False, agentStopping := False,
       pausedResolverRef := IsNull, abortControllerRef := False, isLoading := False,
       control := Finished\<rparr>"

definition callModel :: "nat \<Rightarrow> agent \<Rightarrow> agent" where
  "callModel i s =
     s\<lparr>isLoading := True, modelCalls := modelCalls s @ [history s], control := AwaitModel i\<rparr>"

definition loopTop :: "nat \<Rightarrow> agent \<Rightarrow> agent" where
  \<comment> \<open>the loop test and the body up to its first \<^verbatim>\<open>await\<close>\<close>
  "loopTop i s =
     (if i < maxIterations then
        if abortAgentRef s then finallyBlock (addStep abortedStep s)
        else if pausedResolverRef s = IsPending then
          s\<lparr>agentPaused := True, pausedResolverRef := IsResolver, control := AwaitPause i\<rparr>
        else callModel i s
      else finallyBlock s)"

definition afterPause :: "nat \<Rightarrow> agent \<Rightarrow> agent" where
  \<comment> \<open>behind the \<^verbatim>\<open>await\<close> of the pause-wait\<close>
  "afterPause i s =
     (let s1 = s\<lparr>agentPaused := False\<rparr>
      in if abortAgentRef s1 then finallyBlock (addStep abortedStep s1) else callModel i s1)"

definition startAgentLoop :: "jsstring \<Rightarrow> agent \<Rightarrow> agent" where
  "startAgentLoop userText s =
     loopTop 0
       (s\<lparr>abortAgentRef := False, agentPaused := False, pausedResolverRef := IsNull,
          lastAgentPromptRef := Some userText, agentRunning := True, agentSteps := [],
          abortControllerRef := True, signalAborted := False,
          history := agentHistory s @ [UserEntry userText],
          agentHistory := agentHistory s @ [UserEntry userText]\<rparr>)"

definition timedOut :: "jsstring \<Rightarrow> bool" where
  "timedOut output \<longleftrightarrow>
     includes_str output (str ''timed out'') \<or> includes_str output (str ''waiting for input'')"

definition commandDone :: "nat \<Rightarrow> jsstring option \<Rightarrow> jsstring option \<Rightarrow> jsstring \<Rightarrow> agent \<Rightarrow> agent" where
  \<comment> \<open>\<open>executeAgentCommand\<close> behind its \<^verbatim>\<open>await\<close>, then the rest of the iteration\<close>
  "commandDone i command reason output s =
     (let s1 = s\<lparr>agentSteps :=
                  updateLast (\<lambda>st. st\<lparr>stepOutput := Some output,
                       status := (if timedOut output then StatusTimeout else StatusDone)\<rparr>)
                    (agentSteps s)\<rparr>;
          s2 = (if timedOut output then
                  s1\<lparr>messages := messages s1 @ [SystemMessage (str
                        ''Command may be waiting for input. Check the terminal and resolve it, then try again.'')],
                     abortAgentRef := True\<rparr>
                else s1);
          h = history s2 @
                [FunctionCallEntry (str ''run_command'')
                   [(str ''command'', command), (str ''reasoning'', reason)],
                 FunctionResponseEntry (str ''run_command'') (Output output)]
      in loopTop (i + 1) (s2\<lparr>history := h, agentHistory := h\<rparr>))"

definition executeAgentCommand :: "nat \<Rightarrow> jsstring option \<Rightarrow> jsstring option \<Rightarrow> agent \<Rightarrow> agent" where
  "executeAgentCommand i command reason s =
     (let s1 = addStep \<lparr>stepType = StepCommand, status = StatusRunning, subject = command,
                        reasoning = reason, stepOutput = None\<rparr> s
      in if onRunAgentCommand s1 then
           s1\<lparr>terminalCalls := terminalCalls s1 @ [CallRunAgentCommand command],
              control := AwaitCommand i command reason\<rparr>
         else commandDone i command reason (str ''(No terminal connected for agent execution)'') s1)"

definition keysDone :: "nat \<Rightarrow> jsstring option \<Rightarrow> jsstring option \<Rightarrow> jsstring \<Rightarrow> agent \<Rightarrow> agent" where
  \<comment> \<open>\<open>executeAgentSendKeys\<close> behind its \<^verbatim>\<open>await\<close>, then the rest of the iteration\<close>
  "keysDone i keys reason output s =
     (let s1 = s\<lparr>agentSteps :=
                  updateLast (\<lambda>st. st\<lparr>stepOutput := Some output, status := StatusDone\<rparr>)
                    (agentSteps s)\<rparr>;
          h = history s1 @
                [FunctionCallEntry (str ''send_keys'')
                   [(str ''keys'', keys), (str ''reasoning'', reason)],
                 FunctionResponseEntry (str ''send_keys'') (Output output)]
      in loopTop (i + 1) (s1\<lparr>history := h, agentHistory := h\<rparr>))"

definition executeAgentSendKeys :: "nat \<Rightarrow> jsstring option \<Rightarrow> jsstring option \<Rightarrow> agent \<Rightarrow> agent" where
  "executeAgentSendKeys i keys reason s =
     (let s1 = addStep \<lparr>stepType = StepSendKeys, status = StatusRunning, subject = keys,
                        reasoning = reason, stepOutput = None\<rparr> s
      in if onSendAgentKeys s1 then
           s1\<lparr>terminalCalls := terminalCalls s1 @ [CallSendAgentKeys keys],
              control := AwaitKeys i keys reason\<rparr>
         else keysDone i keys reason (str ''(No terminal connected for sending keys)'') s1)"

definition modelReplied :: "nat \<Rightarrow> part list \<Rightarrow> agent \<Rightarrow> agent" where
  \<comment> \<open>behind \<^verbatim>\<open>await runAgentStep(history, controller.signal)\<close>\<close>
  "modelReplied i parts s =
     (let s1 = s\<lparr>isLoading := False\<rparr>
      in case runAgentStep parts of
           ResultText t ps \<Rightarrow>
             finallyBlock
               (s1\<lparr>history := history s1 @ [ModelEntry ps],
                   agentHistory := history s1 @ [ModelEntry ps],
                   messages := messages s1 @ [ModelMessage t]\<rparr>)
         | ResultComplete summary ps \<Rightarrow>
             (let h = history s1 @ [ModelEntry ps,
                        FunctionResponseEntry (str ''task_complete'') Acknowledged]
              in finallyBlock
                   ((addStep \<lparr>stepType = StepComplete, status = StatusDone, subject = summary,
                              reasoning = None, stepOutput = None\<rparr> s1)
                      \<lparr>history := h, agentHistory := h\<rparr>))
         | ResultCommand command reason ps \<Rightarrow> executeAgentCommand i command reason s1
         | ResultSendKeys keys reason ps \<Rightarrow> executeAgentSendKeys i keys reason s1)"

datatype failure = AbortError | OtherError jsstring

definition modelFailed :: "failure \<Rightarrow> agent \<Rightarrow> agent" where
  \<comment> \<open>the \<^verbatim>\<open>catch\<close> block\<close>
  "modelFailed err s =
     finallyBlock
       (case err of
          AbortError \<Rightarrow> addStep abortedStep (s\<lparr>isLoading := False\<rparr>)
        | OtherError msg \<Rightarrow>
            addStep \<lparr>stepType = StepError, status = StatusDone, subject = Some msg,
                     reasoning = None, stepOutput = None\<rparr> (s\<lparr>isLoading := False\<rparr>))"

definition stopAgent :: "agent \<Rightarrow> agent" where
  "stopAgent s =
     (let s1 = s\<lparr>abortAgentRef := True, agentStopping := True\<rparr>;
          s2 = (if abortControllerRef s1
                then s1\<lparr>signalAborted := True, abortControllerRef := False\<rparr> else s1);
          s3 = (if onAbortAgentCapture s2
                then s2\<lparr>terminalCalls := terminalCalls s2 @ [CallAbortAgentCapture]\<rparr> else s2);
          s4 = (if pausedResolverRef s3 = IsResolver
                then s3\<lparr>pauseResolved := True, pausedResolverRef := IsNull\<rparr> else s3)
      in s4\<lparr>agentPaused := False\<rparr>)"

definition pauseAgent :: "agent \<Rightarrow> agent" where
  "pauseAgent s =
     (if agentRunning s \<and> \<not> agentPaused s then s\<lparr>pausedResolverRef := IsPending\<rparr> else s)"

definition resumeAgent :: "agent \<Rightarrow> agent" where
  "resumeAgent s =
     (if pausedResolverRef s = IsResolver
      then s\<lparr>pauseResolved := True, pausedResolverRef := IsNull\<rparr> else s)"

definition drain :: "agent \<Rightarrow> agent" where
  \<comment> \<open>once a handler has returned, the loop goes on behind a pause-wait that was resolved\<close>
  "drain s =
     (case control s of
        AwaitPause i \<Rightarrow> if pauseResolved s then afterPause i (s\<lparr>pauseResolved := False\<rparr>) else s
      | _ \<Rightarrow> s)"

datatype agentEvent =
    Start jsstring
  | Stop
  | Pause
  | Resume
  | ModelReply "part list"
  | ModelReject failure
  | CaptureResolved jsstring

fun handle :: "agentEvent \<Rightarrow> agent \<Rightarrow> agent" where
  "handle (Start userText) s = startAgentLoop userText s"
| "handle Stop s = drain (stopAgent s)"
| "handle Pause s = pauseAgent s"
| "handle Resume s = drain (resumeAgent s)"
| "handle (ModelReply parts) s =
     (case control s of AwaitModel i \<Rightarrow> modelReplied i parts s | _ \<Rightarrow> s)"
| "handle (ModelReject err) s =
     (case control s of AwaitModel i \<Rightarrow> modelFailed err s | _ \<Rightarrow> s)"
| "handle (CaptureResolved output) s =
     (case control s of
        AwaitCommand i command reason \<Rightarrow> commandDone i command reason output s
      | AwaitKeys i keys reason \<Rightarrow> keysDone i keys reason output s
      | _ \<Rightarrow> s)"

definition runAgent :: "agentEvent list \<Rightarrow> agent \<Rightarrow> agent" where
  "runAgent evs s = foldl (\<lambda>s e. handle e s) s evs"

definition idle :: agent where
  \<comment> \<open>the component as \<^verbatim>\<open>App.jsx\<close> renders it, before any run\<close>
  "idle =
     \<lparr>abortAgentRef = False, pausedResolverRef = IsNull, abortControllerRef = False,
      signalAborted = False, lastAgentPromptRef = None, agentRunning = False,
      agentPaused = False, agentStopping = False, isLoading = False, agentSteps = [],
      agentHistory = [], history = [], messages = [], onRunAgentCommand = True,
      onSendAgentKeys = True, onAbortAgentCapture = True, control = NotStarted,
      pauseResolved = False, modelCalls = [], terminalCalls = []\<rparr>"

section \<open>The session bridge of \<^verbatim>\<open>main.js\<close>\<close>

text \<open>
  The connection handler, lines 429 to 584: the variables of one client connection,
  the handlers of its socket events and the callbacks of its backend.
\<close>

datatype sessionStatus = Authenticated | Ready | Disconnected

text \<open>
  What a connection handler does to the outside: events sent to the client, and calls
  on the pty process, on the shell stream and on the ssh client.
\<close>

datatype error = TypeError

datatype effect =
    EmitStatus sessionStatus
  | EmitError jsstring
  | EmitOutput jsstring
  | PtySpawn int int
  | PtyWrite jsstring
  | PtyResize int int
  | PtyKill
  | StreamWrite jsstring
  | StreamSetWindow int int
  | StreamEnd
  | ClientConnect jsstring
  | ClientShell int int
  | ClientEnd
  | Uncaught error

text \<open>
  \<open>PtySpawn cols rows\<close> and \<open>PtyResize cols rows\<close> take the columns first, as
  \<^verbatim>\<open>pty.spawn\<close>'s options are read here and as \<^verbatim>\<open>ptyProcess.resize\<close> does;
  \<open>StreamSetWindow rows cols\<close> and \<open>ClientShell rows cols\<close> take the rows first, as
  \<^verbatim>\<open>setWindow\<close> does. \<open>Uncaught e\<close> is a handler that throws \<open>e\<close>: what it did before
  stands, and the exception leaves the handler.
\<close>

record size =
  rows :: int
  cols :: int

record session =
  sshClient :: bool
  sshStream :: bool
  ptyProcess :: bool
  pendingSize :: size
  effects :: "effect list"

text \<open>
  The three variables of a connection tell here whether they hold an object or
  \<^verbatim>\<open>null\<close>.
\<close>

record credentials =
  host :: jsstring
  local :: bool

definition LOCAL_HOSTS :: "jsstring list" where
  "LOCAL_HOSTS = [str ''localhost'', str ''127.0.0.1'', str ''::1'']"

definition connected :: session where
  \<comment> \<open>the variables when a client connects\<close>
  "connected =
     \<lparr>sshClient = False, sshStream = False, ptyProcess = False,
      pendingSize = \<lparr>rows = 24, cols = 80\<rparr>, effects = []\<rparr>"

definition effect :: "effect \<Rightarrow> session \<Rightarrow> session" where
  "effect e s = s\<lparr>effects := effects s @ [e]\<rparr>"

definition writeToBackend :: "jsstring \<Rightarrow> session \<Rightarrow> session" where
  "writeToBackend d s =
     (if ptyProcess s then effect (PtyWrite d) s
      else if sshStream s then effect (StreamWrite d) s
      else s)"

definition resizeBackend :: "int \<Rightarrow> int \<Rightarrow> session \<Rightarrow> session" where
  "resizeBackend c r s =
     (let s1 = s\<lparr>pendingSize := \<lparr>rows = r, cols = c\<rparr>\<rparr>
      in if ptyProcess s1 then effect (PtyResize c r) s1
         else if sshStream s1 then effect (StreamSetWindow r c) s1
         else s1)"

definition cleanupBackend :: "session \<Rightarrow> session" where
  "cleanupBackend s =
     (let s1 = (if ptyProcess s then (effect PtyKill s)\<lparr>ptyProcess := False\<rparr> else s);
          s2 = (if sshStream s1 then effect StreamEnd s1 else s1);
          s3 = (if sshClient s2 then effect ClientEnd s2 else s2)
      in s3\<lparr>sshStream := False, sshClient := False\<rparr>)"

definition sshConnect :: "bool \<Rightarrow> credentials \<Rightarrow> session \<Rightarrow> session" where
  \<comment> \<open>the \<^verbatim>\<open>ssh:connect\<close> handler; \<open>pty\<close> tells whether \<^verbatim>\<open>node-pty\<close> could be loaded\<close>
  "sshConnect pty credentials s =
     (if local credentials \<or> host credentials \<in> set LOCAL_HOSTS then
        if \<not> pty then
          effect (EmitError (str ''node-pty is not available. Cannot open local terminal.'')) s
        else
          effect (EmitStatus Ready)
            ((effect (PtySpawn (cols (pendingSize s)) (rows (pendingSize s)))
               (effect (EmitStatus Authenticated) s))\<lparr>ptyProcess := True\<rparr>)
      else effect (ClientConnect (host credentials)) (s\<lparr>sshClient := True\<rparr>))"

definition clientReady :: "session \<Rightarrow> session" where
  \<comment> \<open>the client's \<^verbatim>\<open>ready\<close> handler: it reports the status and asks for the shell channel
      by \<^verbatim>\<open>sshClient.shell\<close>, which throws when the variable holds \<^verbatim>\<open>null\<close>\<close>
  "clientReady s =
     (let s1 = effect (EmitStatus Authenticated) s
      in if sshClient s1
         then effect (ClientShell (rows (pendingSize s1)) (cols (pendingSize s1))) s1
         else effect (Uncaught TypeError) s1)"

datatype bridgeEvent =
    SshConnect bool credentials
  | SshData jsstring
  | SshResize int int
  | Disconnect
  | ClientReady
  | ShellOpened
  | ShellFailed jsstring
  | StreamData jsstring
  | StreamClose
  | ClientError jsstring
  | ClientClose
  | PtyData jsstring
  | PtyExit

fun bridge :: "bridgeEvent \<Rightarrow> session \<Rightarrow> session" where
  "bridge (SshConnect pty credentials) s = sshConnect pty credentials s"
| "bridge (SshData d) s = writeToBackend d s"
| "bridge (SshResize c r) s = resizeBackend c r s"
| "bridge Disconnect s = cleanupBackend s"
| "bridge ClientReady s = clientReady s"
| "bridge ShellOpened s = effect (EmitStatus Ready) (s\<lparr>sshStream := True\<rparr>)"
| "bridge (ShellFailed msg) s = effect (EmitError msg) s"
| "bridge (StreamData d) s = effect (EmitOutput d) s"
| "bridge StreamClose s =
     (let s1 = effect (EmitStatus Disconnected) s
      in if sshClient s1 then effect ClientEnd s1 else s1)"
| "bridge (ClientError msg) s = effect (EmitError msg) s"
| "bridge ClientClose s =
     (effect (EmitStatus Disconnected) s)\<lparr>sshClient := False, sshStream := False\<rparr>"
| "bridge (PtyData d) s = effect (EmitOutput d) s"
| "bridge PtyExit s = (effect (EmitStatus Disconnected) s)\<lparr>ptyProcess := False\<rparr>"

definition runBridge :: "bridgeEvent list \<Rightarrow> session \<Rightarrow> session" where
  "runBridge evs s = foldl (\<lambda>s e. bridge e s) s evs"

definition resizes :: "(int \<times> int) list \<Rightarrow> bridgeEvent list" where
  \<comment> \<open>a run of \<^verbatim>\<open>ssh:resize\<close> events, each given as (cols, rows)\<close>
  "resizes rs = map (\<lambda>(c, r). SshResize c r) rs"

section \<open>Captures over a run of events\<close>

text \<open>
  The promise that a pending capture will resolve, how often a promise's resolver has
  been called, and the caller's obligation: a capture is started only while none is
  pending.
\<close>

definition pendingPromise :: "terminal \<Rightarrow> nat option" where
  "pendingPromise s =
     (case agentCaptureRef s of
        Some c \<Rightarrow> Some (resolve c)
      | None \<Rightarrow> map_option kresolve (agentKeysRef s))"

definition resolutions :: "nat \<Rightarrow> terminal \<Rightarrow> nat" where
  "resolutions p s = length (filter (\<lambda>e. fst e = p) (resolved s))"

definition quiescent :: "terminal \<Rightarrow> bool" where
  "quiescent s \<longleftrightarrow> agentCaptureRef s = None \<and> agentKeysRef s = None"

fun allowed :: "event \<Rightarrow> terminal \<Rightarrow> bool" where
  "allowed (RunAgentCommand command) s = quiescent s"
| "allowed (SendAgentKeys keys) s = quiescent s"
| "allowed e s = True"

fun admissible :: "event list \<Rightarrow> terminal \<Rightarrow> bool" where
  "admissible [] s = True"
| "admissible (e # es) s = (allowed e s \<and> admissible es (step e s))"

text \<open>
  What holds of the component's state as long as the caller keeps to that: the armed
  timeouts are exactly the one of the pending capture, and no resolver of a pending
  capture has been called.
\<close>

definition captureInv :: "terminal \<Rightarrow> bool" where
  "captureInv s \<longleftrightarrow>
     (\<forall>e \<in> set (resolved s). fst e < fresh s) \<and>
     (case agentCaptureRef s of
        None \<Rightarrow>
          (case agentKeysRef s of
             None \<Rightarrow> timers s = []
           | Some k \<Rightarrow>
               timers s = [(ktimer k, 3000, KeysTimeout (kresolve k) (kcleanup k))] \<and>
               kresolve k < fresh s \<and> ktimer k < fresh s \<and> resolutions (kresolve k) s = 0)
      | Some c \<Rightarrow>
          agentKeysRef s = None \<and>
          timers s = [(timer c, 60000, CommandTimeout (resolve c))] \<and>
          resolve c < fresh s \<and> timer c < fresh s \<and> resolutions (resolve c) s = 0)"

definition captureTimer :: "event \<Rightarrow> terminal \<Rightarrow> nat" where
  \<comment> \<open>the handle of the timeout that starting a capture in \<open>s\<close> arms\<close>
  "captureTimer start s = (case start of SendAgentKeys keys \<Rightarrow> fresh s + 2 | _ \<Rightarrow> fresh s + 1)"

definition tracked :: "nat \<Rightarrow> nat \<Rightarrow> terminal \<Rightarrow> bool" where
  \<comment> \<open>the capture with promise \<open>p\<close> and timeout \<open>t\<close> is pending and unresolved, or
      resolved once with its timeout gone\<close>
  "tracked p t s \<longleftrightarrow>
     captureInv s \<and> p < fresh s \<and> t < fresh s \<and>
     (if pendingPromise s = Some p
      then resolutions p s = 0 \<and> map_of (timers s) t \<noteq> None
      else resolutions p s = 1 \<and> map_of (timers s) t = None)"



section \<open>Concrete runs\<close>


definition sudoEcho :: jsstring where
  \<comment> \<open>the terminal's echo of the line that \<open>runAgentCommand\<close> sends for \<^verbatim>\<open>sudo ls\<close>\<close>
  "sudoEcho = str ''sudo ls; echo __JUNI_AGENT_DONE__''"

definition passwordPending :: terminal where
  \<comment> \<open>\<^verbatim>\<open>sudo ls\<close> was sent and stands at its password prompt\<close>
  "passwordPending =
     run [RunAgentCommand (str ''sudo ls''), SshOutput (sudoEcho @ [13, 10] @ str ''Password:'')]
       mounted"

definition commandPending :: terminal where
  \<comment> \<open>a sentinel capture with some output and no marker yet\<close>
  "commandPending =
     run [RunAgentCommand (str ''make''), SshOutput ([27] @ str ''[1mcc main.c'' @ [13, 10])]
       mounted"

definition keysPending :: terminal where
  \<comment> \<open>a sample capture with some output, inside its window\<close>
  "keysPending = run [SendAgentKeys (str ''y Enter''), SshOutput (str ''Proceeding'')] mounted"


section \<open>Runs of the agent loop\<close>

definition isCommandCall :: "part list \<Rightarrow> bool" where
  "isCommandCall parts =
     (case runAgentStep parts of ResultCommand command reason ps \<Rightarrow> True | _ \<Rightarrow> False)"

definition isToolCall :: "part list \<Rightarrow> bool" where
  \<comment> \<open>the reply asks for \<^verbatim>\<open>run_command\<close> or \<^verbatim>\<open>send_keys\<close>\<close>
  "isToolCall parts =
     (case runAgentStep parts of
        ResultCommand command reason ps \<Rightarrow> True
      | ResultSendKeys keys reason ps \<Rightarrow> True
      | _ \<Rightarrow> False)"

definition iteration :: "part list \<times> jsstring \<Rightarrow> agentEvent list" where
  \<comment> \<open>one iteration as the loop sees it: the model's reply, then what the capture resolved with\<close>
  "iteration x = [ModelReply (fst x), CaptureResolved (snd x)]"

definition iterations :: "(part list \<times> jsstring) list \<Rightarrow> agentEvent list" where
  "iterations xs = concat (map iteration xs)"

definition isToolStep :: "agentStep \<Rightarrow> bool" where
  "isToolStep st \<longleftrightarrow> stepType st = StepCommand \<or> stepType st = StepSendKeys"

definition midRun :: "nat \<Rightarrow> agent \<Rightarrow> bool" where
  \<comment> \<open>the loop awaits the model in iteration \<open>k\<close>, with one tool step for each iteration before\<close>
  "midRun k s \<longleftrightarrow>
     control s = AwaitModel k \<and> agentRunning s \<and> \<not> abortAgentRef s \<and>
     pausedResolverRef s \<noteq> IsPending \<and> length (agentSteps s) = k \<and>
     list_all isToolStep (agentSteps s)"

definition runCommandCall :: "jsstring \<Rightarrow> part list" where
  \<comment> \<open>a reply that calls \<^verbatim>\<open>run_command\<close>\<close>
  "runCommandCall command =
     [\<lparr>functionCallOf = Some (str ''run_command'', [(str ''command'', command)]),
       textOf = None\<rparr>]"

definition pausedRun :: agent where
  \<comment> \<open>a run that was asked to pause during its first iteration and now waits at the top of its second\<close>
  "pausedRun =
     runAgent [Start (str ''list the files''), Pause, ModelReply (runCommandCall (str ''ls'')),
               CaptureResolved (str ''file1'')] idle"

definition remoteHost :: credentials where
  "remoteHost = \<lparr>host = str ''build.example.org'', local = False\<rparr>"

definition shellRequested :: session where
  \<comment> \<open>a remote session whose client is ready: the shell channel is asked for and not yet open\<close>
  "shellRequested = runBridge [SshConnect True remoteHost, ClientReady] connected"

section \<open>Properties of the capture engine\<close>

lemmas string_defs = str_def isWhiteSpace_def trim_def orElse_def splitWs_def

lemmas strip_defs = stripAnsi_def csiPrivate_def csi8bit_def osc_def charsetSelect_def
  escSingle_def csiGeneral_def bareBracket_def carriageReturn_def letterThen_def isLetter_def
  isDigitSemi_def

lemmas key_defs = translateKeys_def translateToken_def keyMapGet_def KEY_MAP_def
  objectPrototype_def

lemmas message_defs = AGENT_SENTINEL_def abortedMessage_def timeoutMessage_def
  noOutputMessage_def notConnectedMessage_def

lemmas op_defs = runAgentCommand_def sendAgentKeys_def abortAgentCapture_def onSshOutput_def
  timerFire_def callResolve_def clearTimeout_def cleanup_def Let_def

lemmas inv_defs = captureInv_def resolutions_def pendingPromise_def quiescent_def

lemma run_Cons: "run (e # es) s = run es (step e s)"
  by (simp add: run_def)

lemma run_append: "run (xs @ ys) s = run ys (run xs s)"
  by (simp add: run_def)

lemma filter_fresh [simp]:
  "\<forall>e \<in> set xs. fst e < (n::nat) \<Longrightarrow> filter (\<lambda>e. fst e = n) xs = []"
  by (auto simp: filter_empty_conv)

lemma runAgentCommand_fields:
  "fresh (runAgentCommand x s) = fresh s + 2"
  "agentKeysRef (runAgentCommand x s) = agentKeysRef s"
  "agentCaptureRef (runAgentCommand x s) =
     (if socketRef s then Some \<lparr>buffer = [], resolve = fresh s, timer = fresh s + 1\<rparr>
      else agentCaptureRef s)"
  "timers (runAgentCommand x s) =
     (if socketRef s then timers s @ [(fresh s + 1, 60000, CommandTimeout (fresh s))]
      else timers s)"
  "resolved (runAgentCommand x s) =
     (if socketRef s then resolved s else resolved s @ [(fresh s, notConnectedMessage)])"
  by (simp_all add: runAgentCommand_def callResolve_def Let_def)

lemma sendAgentKeys_fields:
  "fresh (sendAgentKeys x s) = fresh s + 3"
  "agentCaptureRef (sendAgentKeys x s) = agentCaptureRef s"
  "agentKeysRef (sendAgentKeys x s) =
     (if socketRef s then Some \<lparr>kresolve = fresh s, ktimer = fresh s + 2, kcleanup = fresh s + 1\<rparr>
      else agentKeysRef s)"
  "timers (sendAgentKeys x s) =
     (if socketRef s then timers s @ [(fresh s + 2, 3000, KeysTimeout (fresh s) (fresh s + 1))]
      else timers s)"
  "resolved (sendAgentKeys x s) =
     (if socketRef s then resolved s else resolved s @ [(fresh s, notConnectedMessage)])"
  by (simp_all add: sendAgentKeys_def callResolve_def Let_def)

lemma abortAgentCapture_fields:
  "fresh (abortAgentCapture s) = fresh s"
  "agentCaptureRef (abortAgentCapture s) = None"
  "agentKeysRef (abortAgentCapture s) = None"
  "timers (abortAgentCapture s) =
     filter (\<lambda>e. Some (fst e) \<noteq> map_option ktimer (agentKeysRef s))
       (filter (\<lambda>e. Some (fst e) \<noteq> map_option timer (agentCaptureRef s)) (timers s))"
  "resolved (abortAgentCapture s) =
     resolved s
     @ (case agentCaptureRef s of
          None \<Rightarrow> []
        | Some c \<Rightarrow> [(resolve c, orElse (trim (stripAnsi (buffer c))) abortedMessage)])
     @ (case agentKeysRef s of None \<Rightarrow> [] | Some k \<Rightarrow> [(kresolve k, abortedMessage)])"
  by (simp_all add: abortAgentCapture_def callResolve_def clearTimeout_def cleanup_def Let_def
      split: option.splits)

lemma onSshOutput_fields:
  "fresh (onSshOutput d s) = fresh s"
  "agentKeysRef (onSshOutput d s) = agentKeysRef s"
  "agentCaptureRef (onSshOutput d s) =
     (case agentCaptureRef s of
        None \<Rightarrow> None
      | Some c \<Rightarrow>
          (case sentinelCapture AGENT_SENTINEL (buffer c @ d) of
             Some output \<Rightarrow> None
           | None \<Rightarrow> Some (c\<lparr>buffer := buffer c @ d\<rparr>)))"
  "timers (onSshOutput d s) =
     (case agentCaptureRef s of
        None \<Rightarrow> timers s
      | Some c \<Rightarrow>
          (case sentinelCapture AGENT_SENTINEL (buffer c @ d) of
             Some output \<Rightarrow> filter (\<lambda>e. fst e \<noteq> timer c) (timers s)
           | None \<Rightarrow> timers s))"
  "resolved (onSshOutput d s) =
     (case agentCaptureRef s of
        None \<Rightarrow> resolved s
      | Some c \<Rightarrow>
          (case sentinelCapture AGENT_SENTINEL (buffer c @ d) of
             Some output \<Rightarrow> resolved s @ [(resolve c, output)]
           | None \<Rightarrow> resolved s))"
  by (simp_all add: onSshOutput_def callResolve_def clearTimeout_def Let_def
      split: option.splits)

lemma runCallback_fields:
  "fresh (runCallback cb s) = fresh s"
  "timers (runCallback cb s) = timers s"
  "agentCaptureRef (runCallback cb s) =
     (case cb of CommandTimeout p \<Rightarrow> None | KeysTimeout p l \<Rightarrow> agentCaptureRef s)"
  "agentKeysRef (runCallback cb s) =
     (case cb of CommandTimeout p \<Rightarrow> agentKeysRef s | KeysTimeout p l \<Rightarrow> None)"
  "resolved (runCallback cb s) =
     (case cb of
        CommandTimeout p \<Rightarrow>
          (case agentCaptureRef s of
             Some c \<Rightarrow> resolved s @ [(p, orElse (trim (stripAnsi (buffer c))) timeoutMessage)]
           | None \<Rightarrow> resolved s)
      | KeysTimeout p l \<Rightarrow>
          resolved s @ [(p, orElse (trim (stripAnsi (outputBuffer s l))) noOutputMessage)])"
  by (cases cb; simp add: callResolve_def cleanup_def split: option.splits)+

lemma clearTimeout_fields:
  "fresh (clearTimeout t s) = fresh s"
  "timers (clearTimeout t s) = filter (\<lambda>e. fst e \<noteq> t) (timers s)"
  "agentCaptureRef (clearTimeout t s) = agentCaptureRef s"
  "agentKeysRef (clearTimeout t s) = agentKeysRef s"
  "resolved (clearTimeout t s) = resolved s"
  "outputBuffer (clearTimeout t s) = outputBuffer s"
  by (simp_all add: clearTimeout_def)

lemmas capture_fields = runAgentCommand_fields sendAgentKeys_fields abortAgentCapture_fields
  onSshOutput_fields runCallback_fields clearTimeout_fields

lemma mounted_inv: "captureInv mounted \<and> quiescent mounted"
  by (simp add: inv_defs mounted_def)

lemma captureInv_step:
  assumes "captureInv s" and "allowed e s"
  shows "captureInv (step e s)"
proof (cases e)
  case (RunAgentCommand x)
  then show ?thesis using assms
    by (auto simp: inv_defs capture_fields less_Suc_eq dest: bspec)
next
  case (SendAgentKeys x)
  then show ?thesis using assms
    by (auto simp: inv_defs capture_fields less_Suc_eq dest: bspec)
next
  case AbortAgentCapture
  then show ?thesis using assms
    by (auto simp: inv_defs capture_fields split: option.splits)
next
  case (SshOutput d)
  then show ?thesis using assms
    by (auto simp: inv_defs capture_fields split: option.splits)
next
  case (TimerFire t)
  then show ?thesis using assms
    by (auto simp: inv_defs capture_fields timerFire_def split: option.splits if_splits)
qed

lemma tracked_step:
  assumes "tracked p t s" and "allowed e s"
  shows "tracked p t (step e s)"
proof -
  have inv: "captureInv (step e s)"
    using assms captureInv_step by (simp add: tracked_def)
  show ?thesis
  proof (cases e)
    case (RunAgentCommand x)
    then show ?thesis using assms inv
      by (auto simp: tracked_def inv_defs capture_fields split: option.splits if_splits)
  next
    case (SendAgentKeys x)
    then show ?thesis using assms inv
      by (auto simp: tracked_def inv_defs capture_fields split: option.splits if_splits)
  next
    case AbortAgentCapture
    then show ?thesis using assms inv
      by (auto simp: tracked_def inv_defs capture_fields split: option.splits if_splits)
  next
    case (SshOutput d)
    then show ?thesis using assms inv
      by (auto simp: tracked_def inv_defs capture_fields split: option.splits if_splits)
  next
    case (TimerFire t')
    then show ?thesis using assms inv
      by (auto simp: tracked_def inv_defs capture_fields timerFire_def split: option.splits if_splits)
  qed
qed

lemma tracked_run:
  "tracked p t s \<Longrightarrow> admissible evs s \<Longrightarrow> tracked p t (run evs s)"
proof (induction evs arbitrary: s)
  case Nil
  then show ?case by (simp add: run_def)
next
  case (Cons e es)
  then show ?case by (simp add: run_Cons tracked_step)
qed

lemma tracked_start:
  assumes "captureInv s" and "quiescent s"
    and "start = RunAgentCommand x \<or> start = SendAgentKeys x"
  shows "tracked (fresh s) (captureTimer start s) (step start s)"
proof -
  have unresolved: "\<forall>e \<in> set (resolved s). fst e < fresh s"
    using assms(1) by (simp add: captureInv_def)
  have idle: "timers s = []"
    using assms(1,2) by (simp add: captureInv_def quiescent_def)
  have "allowed start s" using assms(2,3) by auto
  with assms(1) have inv: "captureInv (step start s)"
    by (rule captureInv_step)
  from assms(3) show ?thesis
  proof
    assume cmd: "start = RunAgentCommand x"
    show ?thesis
      using inv assms(2) unresolved idle unfolding cmd
      by (cases "socketRef s")
         (simp_all add: tracked_def captureTimer_def pendingPromise_def resolutions_def
            quiescent_def capture_fields)
  next
    assume keys: "start = SendAgentKeys x"
    show ?thesis
      using inv assms(2) unresolved idle unfolding keys
      by (cases "socketRef s")
         (simp_all add: tracked_def captureTimer_def pendingPromise_def resolutions_def
            quiescent_def capture_fields)
  qed
qed

lemma tracked_fire:
  assumes "tracked p t s"
  shows "resolutions p (step (TimerFire t) s) = 1"
  using assms
  by (auto simp: tracked_def inv_defs capture_fields timerFire_def split: option.splits if_splits)

text \<open>
  C2. Take a component in which no capture is pending and start one, a sentinel or a
  sample capture; let any events follow in which a capture is started only while none
  is pending. Then the resolver of that capture's promise has been called at most once;
  it has not been called exactly as long as the capture is the pending one; once it has
  been called the capture's timeout is no longer armed; and after the deadline (the
  capture's timeout, fired if it is still armed) it has been called exactly once.
\<close>

theorem exactly_one_resolution:
  assumes "captureInv s" and "quiescent s"
    and "start = RunAgentCommand x \<or> start = SendAgentKeys x"
    and "admissible evs (step start s)"
  shows "resolutions (fresh s) (run evs (step start s)) \<le> 1
       \<and> (resolutions (fresh s) (run evs (step start s)) = 0
            \<longleftrightarrow> pendingPromise (run evs (step start s)) = Some (fresh s))
       \<and> (resolutions (fresh s) (run evs (step start s)) = 1
            \<longrightarrow> map_of (timers (run evs (step start s))) (captureTimer start s) = None)
       \<and> resolutions (fresh s) (run (evs @ [TimerFire (captureTimer start s)]) (step start s)) = 1"
proof -
  have t: "tracked (fresh s) (captureTimer start s) (run evs (step start s))"
    using assms by (simp add: tracked_start tracked_run)
  have fire: "resolutions (fresh s) (run (evs @ [TimerFire (captureTimer start s)]) (step start s)) = 1"
    using tracked_fire [OF t] by (simp add: run_append run_def)
  show ?thesis using t fire by (auto simp: tracked_def split: if_splits)
qed

theorem exactly_one_resolution_witness:
  "captureInv mounted \<and> quiescent mounted
   \<and> admissible [SshOutput (str ''out''), AbortAgentCapture, SendAgentKeys (str ''y'')]
        (step (RunAgentCommand (str ''ls'')) mounted)
   \<and> resolutions 0 (run [SshOutput (str ''out''), AbortAgentCapture, SendAgentKeys (str ''y'')]
        (step (RunAgentCommand (str ''ls'')) mounted)) \<le> 1
   \<and> resolutions 0 (run ([SshOutput (str ''out''), AbortAgentCapture, SendAgentKeys (str ''y'')]
        @ [TimerFire 1]) (step (RunAgentCommand (str ''ls'')) mounted)) = 1"
proof -
  have h1: "captureInv mounted" and h2: "quiescent mounted"
    using mounted_inv by simp_all
  have h3: "RunAgentCommand (str ''ls'') = RunAgentCommand (str ''ls'')
            \<or> RunAgentCommand (str ''ls'') = SendAgentKeys (str ''ls'')"
    by simp
  have h4: "admissible [SshOutput (str ''out''), AbortAgentCapture, SendAgentKeys (str ''y'')]
              (step (RunAgentCommand (str ''ls'')) mounted)"
    by (simp add: quiescent_def capture_fields)
  have f: "fresh mounted = 0" by (simp add: mounted_def)
  show ?thesis
    using h1 h2 h4 exactly_one_resolution [OF h1 h2 h3 h4]
    by (simp add: f captureTimer_def)
qed

lemmas run_defs = run_def mounted_def op_defs message_defs sentinelCapture_def
  extractOutput_def














lemma indexOf_first_newline:
  "10 \<notin> set echo \<Longrightarrow> indexOf (echo @ 10 # rest) 10 = Some (length echo)"
  by (induction echo) auto

lemma extractOutput_skips_echo:
  assumes "10 \<notin> set echo"
  shows "extractOutput (echo @ [10] @ body @ rest) (length echo + 1 + length body) = trim body"
proof -
  have before: "take (length echo + 1 + length body) (echo @ [10] @ body @ rest) = echo @ 10 # body"
    by simp
  show ?thesis
    unfolding extractOutput_def before Let_def
    by (simp add: indexOf_first_newline [OF assms])
qed

lemma map_of_filter_fst [simp]: "map_of (filter (\<lambda>e. fst e \<noteq> t) xs) t = None"
  by (induction xs) auto

text \<open>
  What an abort does as the claim C4 has it. It resolves a pending sentinel capture at
  once with the escape-stripped, trimmed content accumulated so far, or with the
  placeholder \<^verbatim>\<open>(aborted by user)\<close> when that content is empty; for either kind of
  capture it cancels the timeout, and no capture is pending afterwards, so that the
  next one can be started.
\<close>

lemma abort_resolves_sentinel:
  "(agentCaptureRef s = Some c \<and> agentKeysRef s = None \<longrightarrow>
      resolved (abortAgentCapture s) =
        resolved s @ [(resolve c, if trim (stripAnsi (buffer c)) = [] then str ''(aborted by user)''
                                  else trim (stripAnsi (buffer c)))]
      \<and> map_of (timers (abortAgentCapture s)) (timer c) = None)
   \<and> (agentKeysRef s = Some k \<longrightarrow> map_of (timers (abortAgentCapture s)) (ktimer k) = None)
   \<and> quiescent (abortAgentCapture s)"
proof -
  have sentinel: "resolved (abortAgentCapture s) =
        resolved s @ [(resolve c, if trim (stripAnsi (buffer c)) = [] then str ''(aborted by user)''
                                  else trim (stripAnsi (buffer c)))]
      \<and> map_of (timers (abortAgentCapture s)) (timer c) = None"
    if "agentCaptureRef s = Some c \<and> agentKeysRef s = None"
    using that by (simp add: abortAgentCapture_fields orElse_def abortedMessage_def)
  have sample: "map_of (timers (abortAgentCapture s)) (ktimer k) = None"
    if "agentKeysRef s = Some k"
    using that by (auto simp: abortAgentCapture_fields map_of_eq_None_iff)
  have cleared: "quiescent (abortAgentCapture s)"
    by (simp add: abortAgentCapture_fields quiescent_def)
  from sentinel sample cleared show ?thesis by blast
qed

lemma abort_sentinel_example:
  "agentCaptureRef commandPending =
     Some \<lparr>buffer = [27] @ str ''[1mcc main.c'' @ [13, 10], resolve = 0, timer = 1\<rparr>
   \<and> agentKeysRef commandPending = None
   \<and> resolved (abortAgentCapture commandPending) = [(0, str ''cc main.c'')]
   \<and> map_of (timers (abortAgentCapture commandPending)) 1 = None
   \<and> quiescent (abortAgentCapture commandPending)"
proof -
  have c: "agentCaptureRef commandPending =
             Some \<lparr>buffer = [27] @ str ''[1mcc main.c'' @ [13, 10], resolve = 0, timer = 1\<rparr>
           \<and> agentKeysRef commandPending = None \<and> resolved commandPending = []"
    by (simp add: commandPending_def run_defs strip_defs string_defs)
  have content: "trim (stripAnsi ([27] @ str ''[1mcc main.c'' @ [13, 10])) = str ''cc main.c''"
    by (simp add: strip_defs string_defs)
  show ?thesis
    using c content
      abort_resolves_sentinel [of commandPending
        "\<lparr>buffer = [27] @ str ''[1mcc main.c'' @ [13, 10], resolve = 0, timer = 1\<rparr>"
        "\<lparr>kresolve = 0, ktimer = 2, kcleanup = 1\<rparr>"]
    by (simp add: str_def)
qed

text \<open>
  C4 fails on the code for a sample capture. One that has accumulated the output
  \<^verbatim>\<open>Proceeding\<close> is pending; an abort resolves it with the placeholder
  \<^verbatim>\<open>(aborted by user)\<close> and the output is lost, where the claim has it resolved with
  that output. The capture's own timeout, fired in the same state, does resolve it
  with \<^verbatim>\<open>Proceeding\<close>, as the abort of a sentinel capture does with what that one has
  accumulated.
\<close>

theorem abort_drops_sample_output:
  "agentKeysRef keysPending = Some \<lparr>kresolve = 0, ktimer = 2, kcleanup = 1\<rparr>
   \<and> agentCaptureRef keysPending = None
   \<and> trim (stripAnsi (outputBuffer keysPending 1)) = str ''Proceeding''
   \<and> resolved (abortAgentCapture keysPending) = [(0, str ''(aborted by user)'')]
   \<and> resolved (abortAgentCapture keysPending) \<noteq> [(0, str ''Proceeding'')]
   \<and> resolved (timerFire 2 keysPending) = [(0, str ''Proceeding'')]"
  by (simp add: keysPending_def run_defs strip_defs string_defs key_defs)

section \<open>Properties of the key translation\<close>

lemma foldl_append_concat:
  "foldl (\<lambda>payload token. payload @ f token) acc ts = acc @ concat (map f ts)"
  by (induction ts arbitrary: acc) simp_all

lemma translateKeys_concat:
  "translateKeys keys = concat (map translateToken (splitWs keys))"
  by (simp add: translateKeys_def foldl_append_concat)

lemma translateToken_table:
  assumes "map_of objectPrototype token = None"
  shows "translateToken token = (case map_of KEY_MAP token of Some v \<Rightarrow> v | None \<Rightarrow> token)"
  using assms by (simp add: translateToken_def keyMapGet_def split: option.splits)

lemma splitFrom_no_whitespace:
  assumes "\<forall>c \<in> set tok. \<not> isWhiteSpace c"
  shows "\<forall>t \<in> set (splitFrom tok s). \<forall>c \<in> set t. \<not> isWhiteSpace c"
  using assms
proof (induction tok s rule: splitFrom.induct)
  case (1 tok)
  then show ?case by simp
next
  case (2 tok c cs)
  show ?case
  proof (cases "isWhiteSpace c")
    case True
    have "\<forall>t \<in> set (splitFrom [] (dropWhile isWhiteSpace cs)). \<forall>c \<in> set t. \<not> isWhiteSpace c"
      using "2.IH"(1) [OF True] by simp
    then show ?thesis using True "2.prems" by simp
  next
    case False
    have "\<forall>x \<in> set (tok @ [c]). \<not> isWhiteSpace x"
      using False "2.prems" by simp
    from "2.IH"(2) [OF False this] show ?thesis using False by simp
  qed
qed

lemma splitWs_no_whitespace:
  "t \<in> set (splitWs keys) \<Longrightarrow> c \<in> set t \<Longrightarrow> \<not> isWhiteSpace c"
  using splitFrom_no_whitespace [of "[]" keys] by (auto simp: splitWs_def)

lemma key_with_space:
  assumes "map_of KEY_MAP token = Some v" and "32 \<in> set v"
  shows "token = str ''Space''"
proof -
  have "(token, v) \<in> set KEY_MAP" using assms(1) by (rule map_of_SomeD)
  then show ?thesis using assms(2) by (auto simp: KEY_MAP_def str_def)
qed

lemma space_only_by_Space_or_inherited:
  assumes "32 \<in> set (translateKeys keys)"
  shows "str ''Space'' \<in> set (splitWs keys)
       \<or> (\<exists>t \<in> set (splitWs keys). map_of objectPrototype t \<noteq> None)"
proof (rule disjCI)
  assume none: "\<not> (\<exists>t \<in> set (splitWs keys). map_of objectPrototype t \<noteq> None)"
  from assms obtain t where t: "t \<in> set (splitWs keys)" and sp: "32 \<in> set (translateToken t)"
    by (auto simp: translateKeys_concat)
  have own: "map_of objectPrototype t = None" using none t by auto
  have "32 \<notin> set t" using splitWs_no_whitespace [OF t, of 32] by (auto simp: isWhiteSpace_def)
  with sp obtain v where "map_of KEY_MAP t = Some v" and "32 \<in> set v"
    unfolding translateToken_table [OF own] by (cases "map_of KEY_MAP t") auto
  then have "t = str ''Space''" by (rule key_with_space)
  with t show "str ''Space'' \<in> set (splitWs keys)" by simp
qed

lemma y_Enter: "translateKeys (str ''y Enter'') = str ''y'' @ [13]"
  by (simp add: key_defs string_defs)

lemma echo_hi: "translateKeys (str ''echo hi'') = str ''echohi''"
  by (simp add: key_defs string_defs)

text \<open>
  C8 fails on the code for a token that names a property every object inherits:
  \<^verbatim>\<open>constructor\<close> is no key of the table, yet \<^verbatim>\<open>KEY_MAP[token]\<close> finds the inherited
  function, and the function's source text is sent in place of the token.
\<close>

theorem inherited_name_not_passed_literally:
  "splitWs (str ''constructor'') = [str ''constructor'']
   \<and> map_of KEY_MAP (str ''constructor'') = None
   \<and> translateKeys (str ''constructor'') = str ''function Object() { [native code] }''
   \<and> emitted (sendAgentKeys (str ''constructor'') mounted)
       = [str ''function Object() { [native code] }'']"
  by (simp add: key_defs string_defs sendAgentKeys_def mounted_def)

text \<open>
  C10 fails on the code by the same lookup: for the keys \<^verbatim>\<open>toString\<close>, in which no
  token is \<^verbatim>\<open>Space\<close>, the text sent contains spaces.
\<close>

theorem space_sent_without_Space_key:
  "splitWs (str ''toString'') = [str ''toString'']
   \<and> translateKeys (str ''toString'') = str ''function toString() { [native code] }''
   \<and> 32 \<in> set (translateKeys (str ''toString''))"
  by (simp add: key_defs string_defs)

section \<open>Properties of the agent loop\<close>

lemmas agent_defs = startAgentLoop_def loopTop_def afterPause_def callModel_def
  finallyBlock_def addStep_def modelReplied_def modelFailed_def executeAgentCommand_def
  commandDone_def executeAgentSendKeys_def keysDone_def stopAgent_def pauseAgent_def
  resumeAgent_def drain_def updateLast_def maxIterations_def Let_def

lemma runAgent_Cons: "runAgent (e # es) s = runAgent es (handle e s)"
  by (simp add: runAgent_def)

lemma runAgent_append: "runAgent (xs @ ys) s = runAgent ys (runAgent xs s)"
  by (simp add: runAgent_def)

lemma runAgentStep_runCommandCall:
  "runAgentStep (runCommandCall command) = ResultCommand (Some command) None (runCommandCall command)"
  by (simp add: runAgentStep_def runCommandCall_def str_def)

lemma finished_stays:
  assumes "control s = Finished" and "\<forall>t. e \<noteq> Start t"
  shows "control (handle e s) = Finished \<and> modelCalls (handle e s) = modelCalls s
       \<and> agentSteps (handle e s) = agentSteps s"
  using assms by (cases e) (simp_all add: agent_defs)

lemma finished_stays_run:
  "control s = Finished \<Longrightarrow> \<forall>t. Start t \<notin> set evs \<Longrightarrow>
   control (runAgent evs s) = Finished \<and> modelCalls (runAgent evs s) = modelCalls s
   \<and> agentSteps (runAgent evs s) = agentSteps s"
proof (induction evs arbitrary: s)
  case Nil
  then show ?case by (simp add: runAgent_def)
next
  case (Cons e es)
  have e: "\<forall>t. e \<noteq> Start t" using Cons.prems(2) by auto
  have es: "\<forall>t. Start t \<notin> set es" using Cons.prems(2) by auto
  note first = finished_stays [OF Cons.prems(1) e]
  from first have "control (handle e s) = Finished" by simp
  from Cons.IH [OF this es] first show ?case by (simp add: runAgent_Cons)
qed

text \<open>
  C5. When the loop is blocked on its pause-wait, \<open>stopAgent\<close> resolves the wait and
  the loop leaves at once: it appends the \<^verbatim>\<open>aborted\<close> step, calls the model no more and
  is finished, no longer running or paused. Whatever follows short of a new run
  (a resume among it) changes neither the step log nor the model calls.
\<close>

theorem stop_while_paused:
  assumes "control s = AwaitPause i" and "pausedResolverRef s = IsResolver"
    and "\<forall>t. Start t \<notin> set evs"
  shows "control (handle Stop s) = Finished
       \<and> agentSteps (handle Stop s) = agentSteps s @ [abortedStep]
       \<and> modelCalls (handle Stop s) = modelCalls s
       \<and> \<not> agentRunning (handle Stop s) \<and> \<not> agentPaused (handle Stop s)
       \<and> control (runAgent (Stop # evs) s) = Finished
       \<and> agentSteps (runAgent (Stop # evs) s) = agentSteps s @ [abortedStep]
       \<and> modelCalls (runAgent (Stop # evs) s) = modelCalls s"
proof -
  have now: "control (handle Stop s) = Finished
       \<and> agentSteps (handle Stop s) = agentSteps s @ [abortedStep]
       \<and> modelCalls (handle Stop s) = modelCalls s
       \<and> \<not> agentRunning (handle Stop s) \<and> \<not> agentPaused (handle Stop s)"
    using assms(1,2) by (simp add: agent_defs)
  then have "control (handle Stop s) = Finished" by simp
  from finished_stays_run [OF this assms(3)] now show ?thesis
    by (simp add: runAgent_Cons)
qed

lemma pausedRun_state:
  "control pausedRun = AwaitPause 1 \<and> pausedResolverRef pausedRun = IsResolver
   \<and> agentPaused pausedRun \<and> agentRunning pausedRun"
  by (simp add: pausedRun_def runAgent_def idle_def runCommandCall_def agent_defs
      runAgentStep_def timedOut_def str_def)

theorem stop_while_paused_witness:
  "control pausedRun = AwaitPause 1 \<and> pausedResolverRef pausedRun = IsResolver
   \<and> control (handle Stop pausedRun) = Finished
   \<and> agentSteps (handle Stop pausedRun) = agentSteps pausedRun @ [abortedStep]
   \<and> modelCalls (runAgent [Stop, Resume] pausedRun) = modelCalls pausedRun
   \<and> agentSteps (runAgent [Stop, Resume] pausedRun) = agentSteps pausedRun @ [abortedStep]"
proof -
  have h1: "control pausedRun = AwaitPause 1" and h2: "pausedResolverRef pausedRun = IsResolver"
    using pausedRun_state by simp_all
  have h3: "\<forall>t. Start t \<notin> set [Resume]" by simp
  show ?thesis
    using h1 h2 stop_while_paused [OF h1 h2 h3] by simp
qed

lemma no_terminal_not_timedOut:
  "\<not> timedOut (str ''(No terminal connected for agent execution)'')"
  by (simp add: timedOut_def str_def)

lemma midRun_start: "midRun 0 (startAgentLoop userText s)"
  by (simp add: midRun_def agent_defs)

lemma midRun_iteration:
  assumes "midRun k s" and "Suc k < maxIterations" and "isToolCall parts"
    and "\<not> (isCommandCall parts \<and> timedOut output)"
  shows "midRun (Suc k) (runAgent (iteration (parts, output)) s)"
proof (cases "runAgentStep parts")
  case (ResultText t ps)
  then show ?thesis using assms(3) by (simp add: isToolCall_def)
next
  case (ResultComplete summary ps)
  then show ?thesis using assms(3) by (simp add: isToolCall_def)
next
  case (ResultCommand command reason ps)
  then have nt: "\<not> timedOut output" using assms(4) by (simp add: isCommandCall_def)
  show ?thesis
    using assms(1,2) ResultCommand nt no_terminal_not_timedOut
    by (cases "onRunAgentCommand s")
       (simp_all add: midRun_def iteration_def runAgent_def isToolStep_def agent_defs)
next
  case (ResultSendKeys keys reason ps)
  show ?thesis
    using assms(1,2) ResultSendKeys
    by (cases "onSendAgentKeys s")
       (simp_all add: midRun_def iteration_def runAgent_def isToolStep_def agent_defs)
qed

lemma midRun_last_iteration:
  assumes "midRun k s" and "Suc k = maxIterations" and "isToolCall parts"
  shows "control (runAgent (iteration (parts, output)) s) = Finished
       \<and> \<not> agentRunning (runAgent (iteration (parts, output)) s)
       \<and> length (agentSteps (runAgent (iteration (parts, output)) s)) = maxIterations
       \<and> list_all isToolStep (agentSteps (runAgent (iteration (parts, output)) s))"
proof (cases "runAgentStep parts")
  case (ResultText t ps)
  then show ?thesis using assms(3) by (simp add: isToolCall_def)
next
  case (ResultComplete summary ps)
  then show ?thesis using assms(3) by (simp add: isToolCall_def)
next
  case (ResultCommand command reason ps)
  show ?thesis
    using assms(1,2) ResultCommand no_terminal_not_timedOut
    by (cases "onRunAgentCommand s"; cases "timedOut output")
       (simp_all add: midRun_def iteration_def runAgent_def isToolStep_def agent_defs)
next
  case (ResultSendKeys keys reason ps)
  show ?thesis
    using assms(1,2) ResultSendKeys
    by (cases "onSendAgentKeys s")
       (simp_all add: midRun_def iteration_def runAgent_def isToolStep_def agent_defs)
qed

lemma iterations_Cons: "iterations (x # xs) = iteration x @ iterations xs"
  by (simp add: iterations_def)

lemma iterations_snoc: "iterations (xs @ [x]) = iterations xs @ iteration x"
  by (simp add: iterations_def)

lemma midRun_iterations:
  assumes "midRun k s" and "k + length xs < maxIterations"
    and "\<forall>x \<in> set xs. isToolCall (fst x) \<and> \<not> (isCommandCall (fst x) \<and> timedOut (snd x))"
  shows "midRun (k + length xs) (runAgent (iterations xs) s)"
  using assms
proof (induction xs arbitrary: k s)
  case Nil
  then show ?case by (simp add: iterations_def runAgent_def)
next
  case (Cons x xs)
  obtain parts out where x: "x = (parts, out)" by (cases x)
  have one: "midRun (Suc k) (runAgent (iteration (parts, out)) s)"
    using Cons.prems by (intro midRun_iteration) (auto simp: x)
  have "midRun (Suc k + length xs) (runAgent (iterations xs) (runAgent (iteration (parts, out)) s))"
    using Cons.prems by (intro Cons.IH [OF one]) auto
  then show ?case by (simp add: iterations_Cons runAgent_append x)
qed

text \<open>
  C6. Let a run go through 20 iterations in each of which the model asks for a command
  or for keys, with no command before the last one timing out, and with no stop, pause
  or failure. Then the loop has ended and \<open>agentRunning\<close> is false, and the step log
  holds the 20 command and key steps and nothing else: no \<^verbatim>\<open>complete\<close>, \<^verbatim>\<open>aborted\<close> or
  \<^verbatim>\<open>error\<close> step.
\<close>

theorem iteration_cap_stops_silently:
  assumes "length xs = maxIterations"
    and "\<forall>x \<in> set xs. isToolCall (fst x)"
    and "\<forall>x \<in> set (butlast xs). \<not> (isCommandCall (fst x) \<and> timedOut (snd x))"
  shows "control (runAgent (Start userText # iterations xs) s) = Finished
       \<and> \<not> agentRunning (runAgent (Start userText # iterations xs) s)
       \<and> length (agentSteps (runAgent (Start userText # iterations xs) s)) = maxIterations
       \<and> (\<forall>st \<in> set (agentSteps (runAgent (Start userText # iterations xs) s)).
            stepType st = StepCommand \<or> stepType st = StepSendKeys)"
proof -
  have ne: "xs \<noteq> []" using assms(1) by (auto simp: maxIterations_def)
  define ys where "ys = butlast xs"
  define y where "y = last xs"
  have xs: "xs = ys @ [y]" using ne by (simp add: ys_def y_def)
  have len: "Suc (length ys) = maxIterations" using assms(1) by (simp add: xs)
  have tools: "\<forall>x \<in> set ys. isToolCall (fst x) \<and> \<not> (isCommandCall (fst x) \<and> timedOut (snd x))"
    using assms(2,3) by (auto simp: xs)
  have mid: "midRun (0 + length ys) (runAgent (iterations ys) (startAgentLoop userText s))"
    using len tools by (intro midRun_iterations midRun_start) auto
  have lastTool: "isToolCall (fst y)" using assms(2) by (simp add: xs)
  have "runAgent (Start userText # iterations xs) s =
        runAgent (iteration (fst y, snd y)) (runAgent (iterations ys) (startAgentLoop userText s))"
    by (simp add: xs iterations_snoc runAgent_Cons runAgent_append)
  moreover note midRun_last_iteration [OF mid _ lastTool, of "snd y"]
  ultimately show ?thesis using len
    by (simp add: list_all_iff isToolStep_def)
qed

theorem iteration_cap_stops_silently_witness:
  "length (replicate 20 (runCommandCall (str ''ls''), str ''file1'')) = maxIterations
   \<and> isToolCall (runCommandCall (str ''ls''))
   \<and> \<not> timedOut (str ''file1'')
   \<and> control (runAgent (Start (str ''list the files'')
        # iterations (replicate 20 (runCommandCall (str ''ls''), str ''file1''))) idle) = Finished
   \<and> \<not> agentRunning (runAgent (Start (str ''list the files'')
        # iterations (replicate 20 (runCommandCall (str ''ls''), str ''file1''))) idle)
   \<and> length (agentSteps (runAgent (Start (str ''list the files'')
        # iterations (replicate 20 (runCommandCall (str ''ls''), str ''file1''))) idle)) = 20"
proof -
  have h1: "length (replicate 20 (runCommandCall (str ''ls''), str ''file1'')) = maxIterations"
    by (simp add: maxIterations_def)
  have tool: "isToolCall (runCommandCall (str ''ls''))"
    by (simp add: isToolCall_def runAgentStep_runCommandCall)
  have nt: "\<not> timedOut (str ''file1'')"
    by (simp add: timedOut_def str_def)
  have h2: "\<forall>x \<in> set (replicate 20 (runCommandCall (str ''ls''), str ''file1'')). isToolCall (fst x)"
    using tool by simp
  have h3: "\<forall>x \<in> set (butlast (replicate 20 (runCommandCall (str ''ls''), str ''file1''))).
              \<not> (isCommandCall (fst x) \<and> timedOut (snd x))"
    using nt by (auto dest: in_set_butlastD)
  show ?thesis
    using h1 tool nt iteration_cap_stops_silently [OF h1 h2 h3, of "str ''list the files''" idle]
    by (simp add: maxIterations_def)
qed

section \<open>A timeout after output\<close>

lemma timeout_without_output_annotated:
  "resolved (run [RunAgentCommand (str ''sleep 100''), TimerFire 1] mounted) = [(0, timeoutMessage)]
   \<and> timedOut timeoutMessage"
  by (simp add: run_defs strip_defs string_defs timedOut_def)

lemma passwordPending_state:
  "agentCaptureRef passwordPending =
     Some \<lparr>buffer = sudoEcho @ [13, 10] @ str ''Password:'', resolve = 0, timer = 1\<rparr>
   \<and> timers passwordPending = [(1, 60000, CommandTimeout 0)]
   \<and> resolved passwordPending = []"
  by (simp add: passwordPending_def sudoEcho_def run_defs strip_defs string_defs)

text \<open>
  C1 fails on the code when output has accumulated. \<^verbatim>\<open>sudo ls\<close> stands at its password
  prompt when the 60 s timeout fires: the capture resolves with the scrubbed buffer
  alone, in which nothing tells a timeout, so \<open>executeAgentCommand\<close> records the step as
  \<^verbatim>\<open>done\<close>, leaves the stop latch unset, and the loop calls the model again.
\<close>

theorem timeout_with_output_not_annotated:
  "map_of (timers passwordPending) 1 = Some (60000, CommandTimeout 0)
   \<and> resolved (timerFire 1 passwordPending) = [(0, sudoEcho @ [10] @ str ''Password:'')]
   \<and> \<not> timedOut (sudoEcho @ [10] @ str ''Password:'')
   \<and> map status (agentSteps (runAgent [Start (str ''list the files''),
          ModelReply (runCommandCall (str ''sudo ls'')),
          CaptureResolved (sudoEcho @ [10] @ str ''Password:'')] idle)) = [StatusDone]
   \<and> \<not> abortAgentRef (runAgent [Start (str ''list the files''),
          ModelReply (runCommandCall (str ''sudo ls'')),
          CaptureResolved (sudoEcho @ [10] @ str ''Password:'')] idle)
   \<and> control (runAgent [Start (str ''list the files''),
          ModelReply (runCommandCall (str ''sudo ls'')),
          CaptureResolved (sudoEcho @ [10] @ str ''Password:'')] idle) = AwaitModel 1"
proof -
  have nt: "\<not> timedOut (sudoEcho @ [10] @ str ''Password:'')"
    by (simp add: timedOut_def sudoEcho_def str_def)
  have fired: "resolved (timerFire 1 passwordPending) = [(0, sudoEcho @ [10] @ str ''Password:'')]"
    by (simp add: passwordPending_def sudoEcho_def run_defs strip_defs string_defs)
  have armed: "map_of (timers passwordPending) 1 = Some (60000, CommandTimeout 0)"
    using passwordPending_state by simp
  show ?thesis
    using nt fired armed
    by (simp add: runAgent_def idle_def agent_defs runAgentStep_runCommandCall)
qed

section \<open>Properties of the session bridge\<close>

lemma runBridge_append: "runBridge (xs @ ys) s = runBridge ys (runBridge xs s)"
  by (simp add: runBridge_def)

lemma resize_buffered:
  "\<not> ptyProcess s \<Longrightarrow> \<not> sshStream s \<Longrightarrow>
   resizeBackend c r s = s\<lparr>pendingSize := \<lparr>rows = r, cols = c\<rparr>\<rparr>"
  by (simp add: resizeBackend_def Let_def)

lemma resizes_buffered:
  "\<not> ptyProcess s \<Longrightarrow> \<not> sshStream s \<Longrightarrow>
   runBridge (resizes rs) s =
     s\<lparr>pendingSize := (if rs = [] then pendingSize s
                        else \<lparr>rows = snd (last rs), cols = fst (last rs)\<rparr>)\<rparr>"
proof (induction rs arbitrary: s)
  case Nil
  then show ?case by (simp add: resizes_def runBridge_def)
next
  case (Cons x rs)
  obtain c r where x: "x = (c, r)" by (cases x)
  have first: "runBridge (resizes (x # rs)) s = runBridge (resizes rs) (resizeBackend c r s)"
    by (simp add: resizes_def runBridge_def x)
  have nb: "\<not> ptyProcess (resizeBackend c r s)" "\<not> sshStream (resizeBackend c r s)"
    using Cons.prems by (simp_all add: resize_buffered)
  show ?case
    unfolding first Cons.IH [OF nb]
    using Cons.prems by (simp add: resize_buffered x)
qed

text \<open>
  C7. Tearing a session down twice in succession leaves exactly what one teardown
  leaves, whatever backend the session had: the second \<open>cleanupBackend\<close> finds the
  three variables cleared, so it kills no pty and ends no stream or client again. The
  effects of both together are those of the first: for each of the pty, the stream and
  the client that the session held, one kill or end, in this order.
\<close>

theorem disconnect_twice_idempotent:
  "runBridge [Disconnect, Disconnect] s = runBridge [Disconnect] s
   \<and> effects (runBridge [Disconnect, Disconnect] s) =
       effects s @ (if ptyProcess s then [PtyKill] else [])
         @ (if sshStream s then [StreamEnd] else [])
         @ (if sshClient s then [ClientEnd] else [])"
proof -
  have once: "effects (cleanupBackend s) =
       effects s @ (if ptyProcess s then [PtyKill] else [])
         @ (if sshStream s then [StreamEnd] else [])
         @ (if sshClient s then [ClientEnd] else [])"
    by (simp add: cleanupBackend_def effect_def Let_def)
  have cleared: "\<not> ptyProcess (cleanupBackend s) \<and> \<not> sshStream (cleanupBackend s)
       \<and> \<not> sshClient (cleanupBackend s)"
    by (simp add: cleanupBackend_def effect_def Let_def)
  have noop: "cleanupBackend t = t"
    if "\<not> ptyProcess t \<and> \<not> sshStream t \<and> \<not> sshClient t" for t
    using that by (simp add: cleanupBackend_def Let_def)
  have again: "cleanupBackend (cleanupBackend s) = cleanupBackend s"
    by (rule noop [OF cleared])
  show ?thesis
    using again once by (simp add: runBridge_def)
qed

text \<open>
  What the code does for resizes that come before the spawn or the shell request.
  While a session has neither a pty nor a shell stream, resize requests reach no
  backend and only overwrite \<open>pendingSize\<close>, so the last of them stands there. A local
  pty spawned next is spawned with that size, and so is a remote shell channel that
  the client's \<^verbatim>\<open>ready\<close> handler asks for next.
\<close>

lemma pending_resize_applied_at_request:
  assumes "\<not> ptyProcess s" and "\<not> sshStream s"
    and "local cr \<or> host cr \<in> set LOCAL_HOSTS"
  shows "effects (runBridge (resizes (rs @ [(c, r)])) s) = effects s
       \<and> pendingSize (runBridge (resizes (rs @ [(c, r)])) s) = \<lparr>rows = r, cols = c\<rparr>
       \<and> effects (runBridge (resizes (rs @ [(c, r)]) @ [SshConnect True cr]) s) =
           effects s @ [EmitStatus Authenticated, PtySpawn c r, EmitStatus Ready]
       \<and> (sshClient s \<longrightarrow>
            effects (runBridge (resizes (rs @ [(c, r)]) @ [ClientReady]) s) =
              effects s @ [EmitStatus Authenticated, ClientShell r c])"
proof -
  have buffered: "runBridge (resizes (rs @ [(c, r)])) s = s\<lparr>pendingSize := \<lparr>rows = r, cols = c\<rparr>\<rparr>"
    using assms(1,2) by (simp add: resizes_buffered)
  show ?thesis
    unfolding runBridge_append buffered
    using assms(3)
    by (simp add: runBridge_def sshConnect_def clientReady_def effect_def Let_def)
qed

lemma resize_before_request_applied:
  "effects (runBridge [SshResize 100 30, SshConnect True remoteHost, SshResize 120 40,
                       ClientReady, ShellOpened] connected)
     = [ClientConnect (host remoteHost), EmitStatus Authenticated, ClientShell 40 120,
        EmitStatus Ready]"
  by (simp add: runBridge_def connected_def remoteHost_def sshConnect_def clientReady_def
      resizeBackend_def effect_def LOCAL_HOSTS_def Let_def str_def)

lemma shellRequested_state:
  "sshClient shellRequested \<and> \<not> sshStream shellRequested \<and> \<not> ptyProcess shellRequested
   \<and> pendingSize shellRequested = \<lparr>rows = 24, cols = 80\<rparr>
   \<and> effects shellRequested
       = [ClientConnect (host remoteHost), EmitStatus Authenticated, ClientShell 24 80]"
  by (simp add: shellRequested_def runBridge_def connected_def remoteHost_def sshConnect_def
      clientReady_def effect_def LOCAL_HOSTS_def Let_def str_def)

text \<open>
  C9 fails on the code for a remote session, between the request for the shell channel
  and the callback that stores its stream. The session has no backend yet, so a resize
  to 120 columns and 40 rows is buffered in \<open>pendingSize\<close> and reaches no backend; but
  the channel was asked for with 80 columns and 24 rows, and when it opens nothing
  applies the buffered size: no \<^verbatim>\<open>setWindow\<close> follows. A local pty has no such gap, as
  it is spawned within the handler.
\<close>

theorem resize_during_shell_request_lost:
  "\<not> ptyProcess shellRequested \<and> \<not> sshStream shellRequested
   \<and> pendingSize (runBridge [SshResize 120 40] shellRequested) = \<lparr>rows = 40, cols = 120\<rparr>
   \<and> effects (runBridge [SshResize 120 40] shellRequested) = effects shellRequested
   \<and> sshStream (runBridge [SshResize 120 40, ShellOpened] shellRequested)
   \<and> effects (runBridge [SshResize 120 40, ShellOpened] shellRequested)
       = [ClientConnect (host remoteHost), EmitStatus Authenticated, ClientShell 24 80,
          EmitStatus Ready]
   \<and> StreamSetWindow 40 120 \<notin> set (effects (runBridge [SshResize 120 40, ShellOpened] shellRequested))"
proof -
  note st = shellRequested_state
  have buffered: "runBridge [SshResize 120 40] shellRequested
                    = shellRequested\<lparr>pendingSize := \<lparr>rows = 40, cols = 120\<rparr>\<rparr>"
    using st by (simp add: runBridge_def resize_buffered)
  have opened: "runBridge [SshResize 120 40, ShellOpened] shellRequested
                  = effect (EmitStatus Ready)
                      (shellRequested\<lparr>pendingSize := \<lparr>rows = 40, cols = 120\<rparr>, sshStream := True\<rparr>)"
    using st by (simp add: runBridge_def resize_buffered)
  show ?thesis
    unfolding buffered opened using st by (simp add: effect_def)
qed

end
